theory Spec2Isabelle
  imports Complex_Main "HOL-Library.Char_ord" "HOL-Library.List_Lexorder" "HOL-Library.Multiset"
begin

section \<open>Attendance management: the data model\<close>

text \<open>
  The three Django models of \<^verbatim>\<open>attendance/models.py\<close> are records, a table is the list of
  its rows in insertion order, and the database is a record of the three tables.
  \<^item> \<^verbatim>\<open>Student\<close>: primary key, the optional one-to-one \<^verbatim>\<open>user\<close>, \<^verbatim>\<open>roll_number\<close>, \<^verbatim>\<open>name\<close>,
    \<^verbatim>\<open>department\<close> (a \<^verbatim>\<open>CharField\<close>, so a string) and \<^verbatim>\<open>year\<close> (an \<^verbatim>\<open>IntegerField\<close>).
  \<^item> \<^verbatim>\<open>Subject\<close>: primary key, \<^verbatim>\<open>subject_name\<close>, \<^verbatim>\<open>subject_code\<close>, \<^verbatim>\<open>department\<close>, \<^verbatim>\<open>year\<close>.
  \<^item> \<^verbatim>\<open>Attendance\<close>: the two foreign keys (held as primary keys, which is what every
    query of the views compares), \<^verbatim>\<open>date\<close> and \<^verbatim>\<open>status\<close> (a one-character \<^verbatim>\<open>CharField\<close>).
  The \<^verbatim>\<open>created_at\<close>/\<^verbatim>\<open>updated_at\<close> columns and the surrogate key of an attendance row are
  written by the storage layer from its clock and counter; no query of the views reads
  them, and they are not part of the model.
\<close>

type_synonym date = "nat \<times> nat \<times> nat"

record student =
  student_id :: nat
  user :: "nat option"
  roll_number :: string
  name :: string
  student_department :: string
  student_year :: int

record subject =
  subject_id :: nat
  subject_name :: string
  subject_code :: string
  subject_department :: string
  subject_year :: int

record attendance =
  student_ref :: nat
  subject_ref :: nat
  adate :: date
  status :: string

record db =
  students :: "student list"
  subjects :: "subject list"
  attendances :: "attendance list"

text \<open>
  The exceptions that the modelled code raises or catches. \<^verbatim>\<open>ValidationError\<close> carries its
  messages.
\<close>

datatype exn =
  IntegrityError
  | MultipleObjectsReturned
  | ValidationError "string list"
  | Http404

section \<open>Eligibility\<close>

text \<open>
  \<^verbatim>\<open>Attendance.clean\<close> (models.py): with both related objects present, the departments are
  compared first and the years second; each mismatch raises a \<^verbatim>\<open>ValidationError\<close>.
  The related objects are passed resolved.
\<close>

definition clean :: "student \<Rightarrow> subject \<Rightarrow> exn + unit" where
  "clean st subj =
     (if student_department st \<noteq> subject_department subj
      then Inl (ValidationError [''Student and Subject must be from the same department''])
      else if student_year st \<noteq> subject_year subj
      then Inl (ValidationError [''Student and Subject must be from the same year''])
      else Inr ())"

text \<open>
  The roster query of \<^verbatim>\<open>mark_attendance\<close> (views.py):
  \<^verbatim>\<open>Student.objects.filter(department=subject.department, year=subject.year).order_by('roll_number')\<close>.
  Strings are ordered lexicographically by character code.
\<close>

definition eligible_students :: "db \<Rightarrow> subject \<Rightarrow> student list" where
  "eligible_students d subj =
     sort_key roll_number
       (filter (\<lambda>st. student_department st = subject_department subj
                     \<and> student_year st = subject_year subj)
          (students d))"

section \<open>The attendance ledger\<close>

text \<open>
  \<^verbatim>\<open>Attendance.Meta.unique_together = ['student', 'subject', 'date']\<close>: the key of a row and
  the constraint on the table.
\<close>

definition key_of :: "attendance \<Rightarrow> nat \<times> nat \<times> date" where
  "key_of r = (student_ref r, subject_ref r, adate r)"

definition unique_together :: "attendance list \<Rightarrow> bool" where
  "unique_together rows = distinct (map key_of rows)"

text \<open>
  The two \<^verbatim>\<open>ForeignKey\<close> columns of \<^verbatim>\<open>Attendance\<close>: a row may only hold the primary key of
  a student of the student table and of a subject of the subject table.
\<close>

definition foreign_keys_hold :: "db \<Rightarrow> nat \<Rightarrow> nat \<Rightarrow> bool" where
  "foreign_keys_hold d sid sj =
     (sid \<in> set (map student_id (students d)) \<and> sj \<in> set (map subject_id (subjects d)))"

text \<open>
  \<^verbatim>\<open>Attendance.objects.create(...)\<close>, the raw insert used by tests.py: the row is inserted as
  given; the table raises \<^verbatim>\<open>IntegrityError\<close>, and nothing is written, when a foreign key
  refers to no row or when the key of the row is already there. A model's \<^verbatim>\<open>save\<close> does not
  call \<^verbatim>\<open>full_clean\<close>, so \<^verbatim>\<open>clean\<close> is not run on this path.
\<close>

definition create :: "db \<Rightarrow> attendance \<Rightarrow> exn + db" where
  "create d r =
     (if foreign_keys_hold d (student_ref r) (subject_ref r) then
        (if key_of r \<in> set (map key_of (attendances d)) then Inl IntegrityError
         else Inr (d\<lparr>attendances := attendances d @ [r]\<rparr>))
      else Inl IntegrityError)"

text \<open>
  \<^verbatim>\<open>Attendance.objects.update_or_create(student=.., subject=.., date=.., defaults={'status': ..})\<close>
  run on its own: the rows with the key are fetched; none means an insert, with the
  constraints of \<^const>\<open>create\<close>, one means that its status is overwritten and saved, more
  than one raises \<^verbatim>\<open>MultipleObjectsReturned\<close>.
\<close>

definition update_or_create :: "db \<Rightarrow> nat \<Rightarrow> nat \<Rightarrow> date \<Rightarrow> string \<Rightarrow> exn + db" where
  "update_or_create d sid sj dt st =
     (case filter (\<lambda>r. key_of r = (sid, sj, dt)) (attendances d) of
        [] \<Rightarrow> create d \<lparr>student_ref = sid, subject_ref = sj, adate = dt, status = st\<rparr>
      | [r] \<Rightarrow>
          Inr (d\<lparr>attendances :=
                 map (\<lambda>r'. if key_of r' = (sid, sj, dt) then r'\<lparr>status := st\<rparr> else r')
                   (attendances d)\<rparr>)
      | _ \<Rightarrow> Inl MultipleObjectsReturned)"

text \<open>
  The view reaches the storage through \<^verbatim>\<open>update_or_create\<close> only, and it catches
  \<^verbatim>\<open>IntegrityError\<close>, which the call raises when another request wins a race for the same
  key. The marking loop is therefore defined over any storage operation of this type;
  \<^const>\<open>update_or_create\<close> is the operation of a request that runs alone.
\<close>

type_synonym storage = "db \<Rightarrow> nat \<Rightarrow> nat \<Rightarrow> date \<Rightarrow> string \<Rightarrow> exn + db"

section \<open>The marking view\<close>

text \<open>Python's \<^verbatim>\<open>str\<close> of a non-negative integer, as the f-strings of the view use it.\<close>

fun str :: "nat \<Rightarrow> string" where
  "str n =
     (if n < 10 then [''0123456789'' ! n]
      else str (n div 10) @ [''0123456789'' ! (n mod 10)])"

declare str.simps [simp del]

text \<open>
  \<^verbatim>\<open>is_present = request.POST.get(f'student_{student.id}') == 'on'\<close>, with the POST data a
  dictionary from field names to values.
\<close>

definition is_present :: "(string \<rightharpoonup> string) \<Rightarrow> student \<Rightarrow> bool" where
  "is_present post st = (post (''student_'' @ str (student_id st)) = Some ''on'')"

text \<open>
  The loop of \<^verbatim>\<open>mark_attendance\<close> over the roster, with the database and the two counters
  as its state. \<^verbatim>\<open>IntegrityError\<close> is caught and counted; any other exception leaves the
  loop and the view.
\<close>

fun mark_loop ::
  "storage \<Rightarrow> (string \<rightharpoonup> string) \<Rightarrow> subject \<Rightarrow> date \<Rightarrow> student list \<Rightarrow>
     db \<times> nat \<times> nat \<Rightarrow> exn + db \<times> nat \<times> nat" where
  "mark_loop upsert post subj dt [] (d, success_count, error_count) =
     Inr (d, success_count, error_count)"
| "mark_loop upsert post subj dt (st # sts) (d, success_count, error_count) =
     (case upsert d (student_id st) (subject_id subj) dt
             (if is_present post st then ''P'' else ''A'') of
        Inr d' \<Rightarrow> mark_loop upsert post subj dt sts (d', success_count + 1, error_count)
      | Inl e \<Rightarrow>
          (if e = IntegrityError
           then mark_loop upsert post subj dt sts (d, success_count, error_count + 1)
           else Inl e))"

datatype level = SUCCESS | WARNING | ERROR

datatype message = Message level string | Exception_message exn

datatype response =
  Redirect string
  | Render_mark_attendance_form subject date "(student \<times> string option) list"

definition get_object_or_404 :: "subject list \<Rightarrow> nat \<Rightarrow> exn + subject" where
  "get_object_or_404 tbl pk =
     (case find (\<lambda>s. subject_id s = pk) tbl of None \<Rightarrow> Inl Http404 | Some s \<Rightarrow> Inr s)"

text \<open>
  The dictionary \<^verbatim>\<open>existing_attendance\<close> that pre-populates the form: student id to the
  status recorded for the subject and date.
\<close>

definition existing_attendance :: "db \<Rightarrow> subject \<Rightarrow> date \<Rightarrow> (nat \<rightharpoonup> string)" where
  "existing_attendance d subj dt =
     fold (\<lambda>r m. m(student_ref r \<mapsto> status r))
       (filter (\<lambda>r. subject_ref r = subject_id subj \<and> adate r = dt) (attendances d))
       Map.empty"

text \<open>
  \<^verbatim>\<open>mark_attendance\<close> (views.py) on a POST request whose \<^verbatim>\<open>subject\<close> and \<^verbatim>\<open>date\<close> fields
  are present and parsed: the subject's primary key, the date, and the remaining POST
  fields. The result is the database, the messages in the order they are issued, and the
  response.
\<close>

definition mark_attendance ::
  "storage \<Rightarrow> db \<Rightarrow> nat \<Rightarrow> date \<Rightarrow> (string \<rightharpoonup> string) \<Rightarrow>
     exn + db \<times> message list \<times> response" where
  "mark_attendance upsert d subject_pk attendance_date post =
     (case get_object_or_404 (subjects d) subject_pk of
        Inl e \<Rightarrow> Inl e
      | Inr subj \<Rightarrow>
          (let sts = eligible_students d subj in
           if sts = [] then
             Inr (d, [Message WARNING ''No students found for this subject.''],
                  Redirect ''mark_attendance'')
           else if ''submit_attendance'' \<in> dom post then
             (case mark_loop upsert post subj attendance_date sts (d, 0, 0) of
                Inl e \<Rightarrow> Inl e
              | Inr (d', success_count, error_count) \<Rightarrow>
                  Inr (d',
                       (if success_count > 0
                        then [Message SUCCESS
                                (''Attendance marked successfully for '' @ str success_count
                                   @ '' students!'')]
                        else [])
                       @ (if error_count > 0
                          then [Message ERROR
                                  (''Failed to mark attendance for '' @ str error_count
                                     @ '' students.'')]
                          else []),
                       Redirect ''view_attendance''))
           else
             Inr (d, [],
                  Render_mark_attendance_form subj attendance_date
                    (map (\<lambda>st. (st, existing_attendance d subj attendance_date (student_id st)))
                       sts))))"

section \<open>Validated saving in the admin\<close>

text \<open>
  \<^verbatim>\<open>Model.full_clean\<close> for an attendance object: the field checks (the status is one of
  \<^verbatim>\<open>STATUS_CHOICES\<close>; the message quotes the value as \<^verbatim>\<open>repr\<close> does for a string without
  quotes in it), then \<^const>\<open>clean\<close>, then the uniqueness check, with the messages
  of all three collected into one \<^verbatim>\<open>ValidationError\<close>. \<^verbatim>\<open>clean\<close> reads the related student
  and subject; when one of them is not in its table that access raises.
  In the admin the three key fields are read-only when an existing object is edited
  (\<^verbatim>\<open>get_readonly_fields\<close>), so an edited object is the row with its key and the
  uniqueness check, which leaves the object itself out, has nothing to compare.
\<close>

definition clean_fields :: "attendance \<Rightarrow> string list" where
  "clean_fields obj =
     (if status obj = ''P'' \<or> status obj = ''A'' then []
      else if status obj = [] then [''This field cannot be blank.'']
      else [''Value '' @ [CHR 0x27] @ status obj @ [CHR 0x27] @ '' is not a valid choice.''])"

definition validate_unique :: "db \<Rightarrow> attendance \<Rightarrow> bool \<Rightarrow> string list" where
  "validate_unique d obj change =
     (if \<not> change \<and> key_of obj \<in> set (map key_of (attendances d))
      then [''Attendance with this Student, Subject and Date already exists.'']
      else [])"

datatype lookup_exn = DoesNotExist

definition full_clean :: "db \<Rightarrow> attendance \<Rightarrow> bool \<Rightarrow> (lookup_exn + exn) + unit" where
  "full_clean d obj change =
     (case (find (\<lambda>s. student_id s = student_ref obj) (students d),
            find (\<lambda>s. subject_id s = subject_ref obj) (subjects d)) of
        (Some st, Some subj) \<Rightarrow>
          (let errors =
                 clean_fields obj
                 @ (case clean st subj of Inl (ValidationError ms) \<Rightarrow> ms | _ \<Rightarrow> [])
                 @ validate_unique d obj change
           in if errors = [] then Inr () else Inl (Inr (ValidationError errors)))
      | _ \<Rightarrow> Inl (Inl DoesNotExist))"

text \<open>
  \<^verbatim>\<open>obj.save()\<close>, which \<^verbatim>\<open>ModelAdmin.save_model\<close> calls: an edited object overwrites its
  row, a new one is inserted.
\<close>

definition save :: "db \<Rightarrow> attendance \<Rightarrow> bool \<Rightarrow> exn + db" where
  "save d obj change =
     (if change \<and> key_of obj \<in> set (map key_of (attendances d))
      then Inr (d\<lparr>attendances :=
                    map (\<lambda>r. if key_of r = key_of obj then r\<lparr>status := status obj\<rparr> else r)
                      (attendances d)\<rparr>)
      else create d obj)"

text \<open>
  \<^verbatim>\<open>AttendanceAdmin.save_model\<close> (admin.py): validate, then save; every exception becomes an
  error message and nothing is saved.
\<close>

datatype admin_message = Admin_error "lookup_exn + exn"

definition save_model :: "db \<Rightarrow> attendance \<Rightarrow> bool \<Rightarrow> db \<times> admin_message list" where
  "save_model d obj change =
     (case full_clean d obj change of
        Inl e \<Rightarrow> (d, [Admin_error e])
      | Inr u \<Rightarrow>
          (case save d obj change of
             Inl e \<Rightarrow> (d, [Admin_error (Inr e)])
           | Inr d' \<Rightarrow> (d', [])))"

section \<open>The per-subject breakdown of the dashboard\<close>

text \<open>
  A percentage is the integer \<^verbatim>\<open>0\<close> or the float that
  \<^verbatim>\<open>round((present / total) * 100, 2)\<close> computes. The breakdown takes the float expression
  as a parameter, a function of the two counts into a type of floats; the section on
  percentages gives the expression itself.
\<close>

datatype 'f number = PyInt int | PyFloat 'f

record 'f subject_entry =
  entry_subject :: subject
  total :: int
  present :: int
  absent :: int
  percentage :: "'f number"

text \<open>
  \<^verbatim>\<open>Attendance.objects.filter(student=student, subject=subject).count()\<close> and the same with
  \<^verbatim>\<open>status='P'\<close>.
\<close>

definition count_total :: "db \<Rightarrow> student \<Rightarrow> subject \<Rightarrow> int" where
  "count_total d st subj =
     int (length (filter (\<lambda>r. student_ref r = student_id st \<and> subject_ref r = subject_id subj)
                    (attendances d)))"

definition count_present :: "db \<Rightarrow> student \<Rightarrow> subject \<Rightarrow> int" where
  "count_present d st subj =
     int (length (filter (\<lambda>r. student_ref r = student_id st \<and> subject_ref r = subject_id subj
                                 \<and> status r = ''P'')
                    (attendances d)))"

text \<open>
  The student branch of \<^verbatim>\<open>dashboard\<close> (views.py): the subjects of the student's department
  and year, in the default ordering of \<^verbatim>\<open>Subject\<close> (\<^verbatim>\<open>Meta.ordering = ['subject_code']\<close>), and
  one dictionary for each.
\<close>

definition subject_attendance ::
  "(int \<Rightarrow> int \<Rightarrow> 'f) \<Rightarrow> db \<Rightarrow> student \<Rightarrow> 'f subject_entry list" where
  "subject_attendance round_percentage d st =
     map (\<lambda>subj.
            (let t = count_total d st subj; p = count_present d st subj
             in \<lparr>entry_subject = subj, total = t, present = p, absent = t - p,
                 percentage = (if t > 0 then PyFloat (round_percentage p t) else PyInt 0)\<rparr>))
       (sort_key subject_code
          (filter (\<lambda>subj. subject_department subj = student_department st
                         \<and> subject_year subj = student_year st)
             (subjects d)))"

section \<open>Percentages\<close>

text \<open>
  Python computes a percentage as \<^verbatim>\<open>round((present / total) * 100, 2)\<close> on binary64
  floats. A finite float is modelled by the rational number it stands for. \<open>binary64\<close>
  rounds a rational to the nearest float, ties to the even significand: 53 bits, spaced by
  \<open>2\<close> to the \<open>-1074\<close> at the bottom of the range. Overflow is not modelled; the values of
  this program lie between 0 and 100. \<open>bit_length\<close> is Python's \<^verbatim>\<open>int.bit_length\<close>, used to
  find the exponent.
\<close>

function bit_length :: "int \<Rightarrow> nat" where
  "bit_length n = (if n \<le> 0 then 0 else Suc (bit_length (n div 2)))"
  by pat_completeness auto
termination
  by (relation "measure nat") auto

declare bit_length.simps [simp del]

text \<open>Rounding to the nearest integer, ties to the even one.\<close>

definition round_half_even :: "rat \<Rightarrow> int" where
  "round_half_even q =
     (let f = \<lfloor>q\<rfloor>; r = q - of_int f
      in if r < 1 / 2 then f else if 1 / 2 < r then f + 1 else if even f then f else f + 1)"

definition binary64 :: "rat \<Rightarrow> rat" where
  "binary64 x =
     (if x = 0 then 0
      else
        (let (n, d) = quotient_of \<bar>x\<bar>;
             s0 = 53 + int (bit_length d) - int (bit_length n);
             s1 = (if 2 ^ 53 \<le> \<bar>x\<bar> * 2 powi s0 then s0 - 1 else s0);
             s = min s1 1074
         in sgn x * of_int (round_half_even (\<bar>x\<bar> * 2 powi s)) / 2 powi s))"

text \<open>
  \<^verbatim>\<open>present / total\<close> is the true division of two integers, correctly rounded, and the
  product with \<^verbatim>\<open>100\<close> is rounded again. \<^verbatim>\<open>round(y, 2)\<close> first takes the decimal with two
  places that is nearest to the exact value of the float \<^verbatim>\<open>y\<close>, ties to even
  (\<open>percentage_decimal\<close>), and returns the float nearest to that decimal
  (\<open>round_percentage\<close>).
\<close>

definition percentage_decimal :: "int \<Rightarrow> int \<Rightarrow> rat" where
  "percentage_decimal p t =
     of_int (round_half_even
               (binary64 (binary64 (of_int p / of_int t) * 100) * 100)) / 100"

definition round_percentage :: "int \<Rightarrow> int \<Rightarrow> rat" where
  "round_percentage p t = binary64 (percentage_decimal p t)"

text \<open>
  The four places that compute a percentage. \<^verbatim>\<open>Student.get_attendance_percentage\<close>
  (models.py), with its optional subject filter, tests \<^verbatim>\<open>total == 0\<close>; the student branch
  of \<^verbatim>\<open>dashboard\<close> and the loop of the view \<^verbatim>\<open>attendance_percentage\<close> (views.py, before its
  department and year filters) test \<^verbatim>\<open>total_classes > 0\<close>; the fourth place is
  \<^const>\<open>subject_attendance\<close>, given \<open>round_percentage\<close> for its float expression.
\<close>

definition count_all :: "db \<Rightarrow> student \<Rightarrow> int" where
  "count_all d st =
     int (length (filter (\<lambda>r. student_ref r = student_id st) (attendances d)))"

definition count_all_present :: "db \<Rightarrow> student \<Rightarrow> int" where
  "count_all_present d st =
     int (length (filter (\<lambda>r. student_ref r = student_id st \<and> status r = ''P'')
                    (attendances d)))"

definition get_attendance_percentage :: "db \<Rightarrow> student \<Rightarrow> subject option \<Rightarrow> rat number" where
  "get_attendance_percentage d st subject_filter =
     (let (t, p) =
            (case subject_filter of
               Some subj \<Rightarrow> (count_total d st subj, count_present d st subj)
             | None \<Rightarrow> (count_all d st, count_all_present d st))
      in if t = 0 then PyInt 0 else PyFloat (round_percentage p t))"

definition dashboard_percentage :: "db \<Rightarrow> student \<Rightarrow> rat number" where
  "dashboard_percentage d st =
     (let total_classes = count_all d st; present_classes = count_all_present d st
      in if total_classes > 0 then PyFloat (round_percentage present_classes total_classes)
         else PyInt 0)"

record student_entry =
  data_student :: student
  total_classes :: int
  present_classes :: int
  absent_classes :: int
  data_percentage :: "rat number"

definition student_data :: "db \<Rightarrow> student_entry list" where
  "student_data d =
     map (\<lambda>st.
            (let t = count_all d st; p = count_all_present d st
             in \<lparr>data_student = st, total_classes = t, present_classes = p,
                 absent_classes = t - p,
                 data_percentage = (if t > 0 then PyFloat (round_percentage p t) else PyInt 0)\<rparr>))
       (sort_key roll_number (students d))"

text \<open>The value that all four places compute from the two counts.\<close>

definition attendance_percent :: "int \<Rightarrow> int \<Rightarrow> rat number" where
  "attendance_percent p t = (if t > 0 then PyFloat (round_percentage p t) else PyInt 0)"

text \<open>
  The spec's percentage, following its words: \<^verbatim>\<open>0\<close> when the total is \<^verbatim>\<open>0\<close>, otherwise
  \<^verbatim>\<open>round(100 * present / total, 2)\<close> of the exact quotient under one rounding mode,
  half-to-even (\<^const>\<open>round_half_even\<close>) or half-up.
\<close>

definition round_half_up :: "rat \<Rightarrow> int" where
  "round_half_up q = \<lfloor>q + 1 / 2\<rfloor>"

definition spec_percentage :: "(rat \<Rightarrow> int) \<Rightarrow> int \<Rightarrow> int \<Rightarrow> rat" where
  "spec_percentage rounding p t =
     (if t = 0 then 0 else of_int (rounding (100 * (of_int p / of_int t) * 100)) / 100)"

section \<open>Sequences of writes\<close>

text \<open>
  The writers of the attendance table: the raw insert, \<^verbatim>\<open>update_or_create\<close>, a marking
  request that runs alone, and the save of the admin. A request that raises leaves the
  database as it was. \<open>ledger_after\<close> is the database after a sequence of them.
\<close>

datatype request =
  Raw_create attendance
  | Upsert nat nat date string
  | Mark nat date "string \<rightharpoonup> string"
  | Admin_save attendance bool

fun handle :: "db \<Rightarrow> request \<Rightarrow> db" where
  "handle d (Raw_create r) = (case create d r of Inl e \<Rightarrow> d | Inr d' \<Rightarrow> d')"
| "handle d (Upsert sid sj dt st) =
     (case update_or_create d sid sj dt st of Inl e \<Rightarrow> d | Inr d' \<Rightarrow> d')"
| "handle d (Mark pk dt post) =
     (case mark_attendance update_or_create d pk dt post of
        Inl e \<Rightarrow> d
      | Inr (d', ms, resp) \<Rightarrow> d')"
| "handle d (Admin_save obj change) = fst (save_model d obj change)"

definition ledger_after :: "request list \<Rightarrow> db \<Rightarrow> db" where
  "ledger_after reqs d = foldl handle d reqs"

section \<open>Notions used in the proofs\<close>

text \<open>
  What \<^const>\<open>update_or_create\<close> does to the rows of a ledger that satisfies the
  uniqueness constraint, the status that the loop of the view writes for a student id,
  the rows after the whole loop, and the two parts of their closed form: the rows that
  were there, with the status overwritten where the key is one of the loop's, and the
  student ids for which a row is new, in the order of their first occurrence.
\<close>

definition mark_status :: "(string \<rightharpoonup> string) \<Rightarrow> nat \<Rightarrow> string" where
  "mark_status post i = (if post (''student_'' @ str i) = Some ''on'' then ''P'' else ''A'')"

definition upsert_rows :: "attendance list \<Rightarrow> nat \<Rightarrow> nat \<Rightarrow> date \<Rightarrow> string \<Rightarrow> attendance list" where
  "upsert_rows rows sid sj dt st =
     (if (sid, sj, dt) \<in> set (map key_of rows)
      then map (\<lambda>r'. if key_of r' = (sid, sj, dt) then r'\<lparr>status := st\<rparr> else r') rows
      else rows @ [\<lparr>student_ref = sid, subject_ref = sj, adate = dt, status = st\<rparr>])"

definition mark_rows ::
  "(string \<rightharpoonup> string) \<Rightarrow> nat \<Rightarrow> date \<Rightarrow> nat list \<Rightarrow> attendance list \<Rightarrow> attendance list" where
  "mark_rows post sj dt ids rows =
     fold (\<lambda>i rs. upsert_rows rs i sj dt (mark_status post i)) ids rows"

definition overwrite ::
  "(string \<rightharpoonup> string) \<Rightarrow> nat \<Rightarrow> date \<Rightarrow> nat set \<Rightarrow> attendance \<Rightarrow> attendance" where
  "overwrite post sj dt I r =
     (if subject_ref r = sj \<and> adate r = dt \<and> student_ref r \<in> I
      then r\<lparr>status := mark_status post (student_ref r)\<rparr> else r)"

fun news :: "nat set \<Rightarrow> nat list \<Rightarrow> nat list" where
  "news seen [] = []"
| "news seen (i # is) = (if i \<in> seen then news seen is else i # news (insert i seen) is)"

definition marked :: "attendance list \<Rightarrow> nat \<Rightarrow> date \<Rightarrow> nat set" where
  "marked rows sj dt = {i. (i, sj, dt) \<in> set (map key_of rows)}"

section \<open>Example data\<close>

text \<open>
  Three first-year CSE students and one ECE student, stored out of roll-number order, two
  CSE subjects and one MECH subject, and two submissions of the marking form.
  \<^const>\<open>update_or_create\<close> with one student's row lost to a concurrent request stands
  for the storage in a race.
\<close>

definition student_cse1 :: student where
  "student_cse1 = \<lparr>student_id = 11, user = None, roll_number = ''21CSE001'', name = ''Asha'',
     student_department = ''CSE'', student_year = 1\<rparr>"

definition student_cse2 :: student where
  "student_cse2 = \<lparr>student_id = 12, user = None, roll_number = ''21CSE002'', name = ''Ravi'',
     student_department = ''CSE'', student_year = 1\<rparr>"

definition student_cse3 :: student where
  "student_cse3 = \<lparr>student_id = 14, user = None, roll_number = ''21CSE003'', name = ''Kiran'',
     student_department = ''CSE'', student_year = 1\<rparr>"

definition student_ece1 :: student where
  "student_ece1 = \<lparr>student_id = 13, user = None, roll_number = ''21ECE001'', name = ''Mala'',
     student_department = ''ECE'', student_year = 1\<rparr>"

definition subject_cs101 :: subject where
  "subject_cs101 = \<lparr>subject_id = 21, subject_name = ''Data Structures'', subject_code = ''CS101'',
     subject_department = ''CSE'', subject_year = 1\<rparr>"

definition subject_cs102 :: subject where
  "subject_cs102 = \<lparr>subject_id = 22, subject_name = ''Algorithms'', subject_code = ''CS102'',
     subject_department = ''CSE'', subject_year = 1\<rparr>"

definition subject_me201 :: subject where
  "subject_me201 = \<lparr>subject_id = 23, subject_name = ''Thermodynamics'', subject_code = ''ME201'',
     subject_department = ''MECH'', subject_year = 2\<rparr>"

definition example_date :: date where
  "example_date = (2024, 2, 10)"

definition example_db :: db where
  "example_db = \<lparr>students = [student_cse2, student_ece1, student_cse3, student_cse1],
     subjects = [subject_cs102, subject_me201, subject_cs101], attendances = []\<rparr>"

definition post_first :: "string \<rightharpoonup> string" where
  "post_first = [''submit_attendance'' \<mapsto> '''', ''student_11'' \<mapsto> ''on'', ''student_12'' \<mapsto> ''on'']"

definition post_second :: "string \<rightharpoonup> string" where
  "post_second = [''submit_attendance'' \<mapsto> '''', ''student_14'' \<mapsto> ''on'']"

definition losing_race :: "nat \<Rightarrow> storage" where
  "losing_race loser d sid sj dt st =
     (if sid = loser then Inl IntegrityError else update_or_create d sid sj dt st)"

definition example_db_marked :: db where
  "example_db_marked = example_db\<lparr>attendances :=
     [\<lparr>student_ref = 11, subject_ref = 21, adate = example_date, status = ''P''\<rparr>,
      \<lparr>student_ref = 12, subject_ref = 21, adate = example_date, status = ''P''\<rparr>,
      \<lparr>student_ref = 14, subject_ref = 21, adate = example_date, status = ''A''\<rparr>,
      \<lparr>student_ref = 11, subject_ref = 21, adate = (2024, 2, 11), status = ''A''\<rparr>]\<rparr>"

definition mismatched_record :: attendance where
  "mismatched_record =
     \<lparr>student_ref = 13, subject_ref = 21, adate = example_date, status = ''P''\<rparr>"

lemmas example_defs = student_cse1_def student_cse2_def student_cse3_def student_ece1_def
  subject_cs101_def subject_cs102_def subject_me201_def example_date_def example_db_def
  post_first_def post_second_def

section \<open>The ledger under the marking loop\<close>

lemma filter_key_cases:
  "distinct (map f xs) \<Longrightarrow>
     filter (\<lambda>x. f x = k) xs = [] \<or> (\<exists>x. filter (\<lambda>x. f x = k) xs = [x])"
proof (induction xs)
  case Nil
  then show ?case by simp
next
  case (Cons a xs)
  show ?case
  proof (cases "f a = k")
    case True
    with Cons.prems have "k \<notin> f ` set xs" by auto
    then have "filter (\<lambda>x. f x = k) xs = []" by (auto simp: filter_empty_conv)
    with True show ?thesis by simp
  next
    case False
    with Cons show ?thesis by simp
  qed
qed

lemma filter_key_empty_iff:
  "filter (\<lambda>x. f x = k) xs = [] \<longleftrightarrow> k \<notin> set (map f xs)"
  by (auto simp: filter_empty_conv)

lemma update_or_create_alone:
  assumes "unique_together (attendances d)"
    and "(sid, sj, dt) \<in> set (map key_of (attendances d)) \<or> foreign_keys_hold d sid sj"
  shows "update_or_create d sid sj dt st =
           Inr (d\<lparr>attendances := upsert_rows (attendances d) sid sj dt st\<rparr>)"
proof (cases "(sid, sj, dt) \<in> set (map key_of (attendances d))")
  case True
  then have ne: "filter (\<lambda>r. key_of r = (sid, sj, dt)) (attendances d) \<noteq> []"
    using filter_key_empty_iff [of key_of "(sid, sj, dt)" "attendances d"] by blast
  from assms have "distinct (map key_of (attendances d))" by (simp add: unique_together_def)
  from filter_key_cases [OF this, of "(sid, sj, dt)"] ne
  obtain r where "filter (\<lambda>r. key_of r = (sid, sj, dt)) (attendances d) = [r]" by blast
  with True show ?thesis by (simp add: update_or_create_def upsert_rows_def)
next
  case False
  then have "filter (\<lambda>r. key_of r = (sid, sj, dt)) (attendances d) = []"
    using filter_key_empty_iff [of key_of "(sid, sj, dt)" "attendances d"] by blast
  with False assms(2) show ?thesis
    by (simp add: update_or_create_def upsert_rows_def create_def key_of_def)
qed


lemma keys_upsert_rows:
  "map key_of (upsert_rows rows sid sj dt st) =
     (if (sid, sj, dt) \<in> set (map key_of rows) then map key_of rows
      else map key_of rows @ [(sid, sj, dt)])"
  by (auto simp: upsert_rows_def key_of_def)

lemma unique_upsert_rows:
  "unique_together rows \<Longrightarrow> unique_together (upsert_rows rows sid sj dt st)"
  by (simp add: unique_together_def keys_upsert_rows)

lemma unique_mark_rows:
  "unique_together rows \<Longrightarrow> unique_together (mark_rows post sj dt ids rows)"
  by (induction ids arbitrary: rows) (simp_all add: mark_rows_def unique_upsert_rows)

lemma foreign_keys_hold_attendances [simp]:
  "foreign_keys_hold (d\<lparr>attendances := rows\<rparr>) sid sj = foreign_keys_hold d sid sj"
  by (simp add: foreign_keys_hold_def)

lemma mark_loop_alone:
  "unique_together (attendances d) \<Longrightarrow>
   \<forall>st \<in> set sts. foreign_keys_hold d (student_id st) (subject_id subj) \<Longrightarrow>
     mark_loop update_or_create post subj dt sts (d, sc, ec) =
       Inr (d\<lparr>attendances :=
               mark_rows post (subject_id subj) dt (map student_id sts) (attendances d)\<rparr>,
            sc + length sts, ec)"
proof (induction sts arbitrary: d sc)
  case Nil
  then show ?case by (simp add: mark_rows_def)
next
  case (Cons st sts)
  let ?d = "d\<lparr>attendances := upsert_rows (attendances d) (student_id st) (subject_id subj) dt
                (mark_status post (student_id st))\<rparr>"
  have u: "unique_together (attendances ?d)"
    using Cons.prems(1) by (simp add: unique_upsert_rows)
  have fk: "\<forall>s \<in> set sts. foreign_keys_hold ?d (student_id s) (subject_id subj)"
    using Cons.prems(2) by simp
  have "foreign_keys_hold d (student_id st) (subject_id subj)"
    using Cons.prems(2) by simp
  then have step: "update_or_create d (student_id st) (subject_id subj) dt
                (if is_present post st then ''P'' else ''A'') = Inr ?d"
    using update_or_create_alone [OF Cons.prems(1), of "student_id st" "subject_id subj" dt]
    by (simp add: mark_status_def is_present_def)
  show ?case
    using Cons.IH [OF u fk, of "sc + 1"] step by (simp add: mark_rows_def)
qed

lemma roster_foreign_keys:
  assumes "subj \<in> set (subjects d)"
  shows "\<forall>st \<in> set (eligible_students d subj).
           foreign_keys_hold d (student_id st) (subject_id subj)"
  using assms by (auto simp: eligible_students_def foreign_keys_hold_def)

lemma get_object_or_404_in_table:
  "get_object_or_404 tbl pk = Inr subj \<Longrightarrow> subj \<in> set tbl"
  by (auto simp: get_object_or_404_def find_Some_iff split: option.splits)

lemma set_news: "set (news seen is) = set is - seen"
  by (induction "is" arbitrary: seen) auto

lemma news_seen: "set is \<subseteq> seen \<Longrightarrow> news seen is = []"
  by (induction "is" arbitrary: seen) auto

lemma marked_upsert:
  "marked (upsert_rows rows i sj dt st) sj dt = insert i (marked rows sj dt)"
  by (auto simp: marked_def keys_upsert_rows)

lemma mark_rows_closed:
  "mark_rows post sj dt ids rows =
     map (overwrite post sj dt (set ids)) rows
     @ map (\<lambda>i. \<lparr>student_ref = i, subject_ref = sj, adate = dt, status = mark_status post i\<rparr>)
         (news (marked rows sj dt) ids)"
proof (induction ids arbitrary: rows)
  case Nil
  then show ?case by (simp add: mark_rows_def overwrite_def)
next
  case (Cons i ids)
  let ?rows = "upsert_rows rows i sj dt (mark_status post i)"
  have unfold: "mark_rows post sj dt (i # ids) rows = mark_rows post sj dt ids ?rows"
    by (simp add: mark_rows_def)
  show ?case
  proof (cases "i \<in> marked rows sj dt")
    case True
    then have k: "(i, sj, dt) \<in> set (map key_of rows)" by (simp add: marked_def)
    have m: "marked ?rows sj dt = marked rows sj dt"
      using True by (auto simp: marked_upsert)
    have "map (overwrite post sj dt (set ids)) ?rows
            = map (overwrite post sj dt (set (i # ids))) rows"
      using k by (auto simp: upsert_rows_def overwrite_def key_of_def)
    with True m show ?thesis
      unfolding unfold Cons.IH [of ?rows] by simp
  next
    case False
    then have k: "(i, sj, dt) \<notin> set (map key_of rows)" by (simp add: marked_def)
    have m: "marked ?rows sj dt = insert i (marked rows sj dt)"
      by (rule marked_upsert)
    have "map (overwrite post sj dt (set ids)) rows
            = map (overwrite post sj dt (set (i # ids))) rows"
      using k by (auto simp: overwrite_def key_of_def)
    with False k m show ?thesis
      unfolding unfold Cons.IH [of ?rows] by (simp add: upsert_rows_def overwrite_def)
  qed
qed

lemma marked_mark_rows:
  "marked (mark_rows post sj dt ids rows) sj dt = marked rows sj dt \<union> set ids"
  by (induction ids arbitrary: rows) (auto simp: mark_rows_def marked_upsert)

lemma overwrite_twice:
  "overwrite p2 sj dt I (overwrite p1 sj dt I r) = overwrite p2 sj dt I r"
  by (simp add: overwrite_def)

lemma overwrite_new:
  "i \<in> I \<Longrightarrow>
     overwrite p2 sj dt I \<lparr>student_ref = i, subject_ref = sj, adate = dt, status = s\<rparr>
       = \<lparr>student_ref = i, subject_ref = sj, adate = dt, status = mark_status p2 i\<rparr>"
  by (simp add: overwrite_def)

lemma mark_rows_twice:
  "mark_rows p2 sj dt ids (mark_rows p1 sj dt ids rows) = mark_rows p2 sj dt ids rows"
proof -
  let ?N = "news (marked rows sj dt) ids"
  let ?rows1 = "mark_rows p1 sj dt ids rows"
  have n: "news (marked ?rows1 sj dt) ids = []"
    by (rule news_seen) (simp add: marked_mark_rows)
  have sub: "set ?N \<subseteq> set ids" by (auto simp: set_news)
  have "mark_rows p2 sj dt ids ?rows1 = map (overwrite p2 sj dt (set ids)) ?rows1"
    using n by (simp add: mark_rows_closed [of p2 sj dt ids ?rows1])
  also have "\<dots> = map (overwrite p2 sj dt (set ids)) rows
      @ map (\<lambda>i. \<lparr>student_ref = i, subject_ref = sj, adate = dt, status = mark_status p2 i\<rparr>) ?N"
    using sub by (auto simp: mark_rows_closed [of p1 sj dt ids rows] overwrite_twice overwrite_new)
  also have "\<dots> = mark_rows p2 sj dt ids rows"
    by (simp add: mark_rows_closed [of p2 sj dt ids rows])
  finally show ?thesis .
qed

lemma key_of_overwrite: "key_of (overwrite post sj dt I r) = key_of r"
  by (simp add: overwrite_def key_of_def)

lemma mark_rows_has:
  assumes "i \<in> set ids"
  shows "\<exists>r \<in> set (mark_rows post sj dt ids rows).
           key_of r = (i, sj, dt) \<and> status r = mark_status post i"
proof (cases "i \<in> marked rows sj dt")
  case True
  then obtain r where r: "r \<in> set rows" "key_of r = (i, sj, dt)"
    by (auto simp: marked_def)
  let ?r = "overwrite post sj dt (set ids) r"
  have "?r \<in> set (mark_rows post sj dt ids rows)"
    using r(1) by (simp add: mark_rows_closed)
  moreover have "key_of ?r = (i, sj, dt)" using r(2) by (simp add: key_of_overwrite)
  moreover have "status ?r = mark_status post i"
    using r(2) assms by (auto simp: overwrite_def key_of_def)
  ultimately show ?thesis by blast
next
  case False
  with assms have "i \<in> set (news (marked rows sj dt) ids)" by (simp add: set_news)
  then have "\<lparr>student_ref = i, subject_ref = sj, adate = dt, status = mark_status post i\<rparr>
      \<in> set (mark_rows post sj dt ids rows)"
    by (simp add: mark_rows_closed)
  then show ?thesis by (force simp: key_of_def)
qed

lemma unique_filter_key:
  assumes "unique_together rows" and "r \<in> set rows" and "key_of r = k"
  shows "filter (\<lambda>x. key_of x = k) rows = [r]"
proof -
  from assms(1) have "distinct (map key_of rows)" by (simp add: unique_together_def)
  from filter_key_cases [OF this, of k]
  consider "filter (\<lambda>x. key_of x = k) rows = []"
    | x where "filter (\<lambda>x. key_of x = k) rows = [x]" by blast
  then show ?thesis
  proof cases
    case 1
    with assms(2,3) show ?thesis by (auto simp: filter_empty_conv)
  next
    case 2
    have "r \<in> set (filter (\<lambda>x. key_of x = k) rows)" using assms(2,3) by simp
    with 2 show ?thesis by simp
  qed
qed

lemma mark_rows_status:
  assumes "unique_together rows" and "i \<in> set ids"
  shows "map status (filter (\<lambda>r. key_of r = (i, sj, dt)) (mark_rows post sj dt ids rows))
           = [mark_status post i]"
proof -
  from mark_rows_has [OF assms(2), of post sj dt rows]
  obtain r where r: "r \<in> set (mark_rows post sj dt ids rows)" "key_of r = (i, sj, dt)"
    "status r = mark_status post i" by blast
  have "unique_together (mark_rows post sj dt ids rows)"
    using assms(1) by (rule unique_mark_rows)
  from unique_filter_key [OF this r(1) r(2)] r(3) show ?thesis by simp
qed

lemma mark_rows_outside:
  "filter (\<lambda>r. \<not> (subject_ref r = sj \<and> adate r = dt \<and> student_ref r \<in> set ids))
       (mark_rows post sj dt ids rows)
     = filter (\<lambda>r. \<not> (subject_ref r = sj \<and> adate r = dt \<and> student_ref r \<in> set ids)) rows"
proof -
  define out where
    "out = (\<lambda>r::attendance. \<not> (subject_ref r = sj \<and> adate r = dt \<and> student_ref r \<in> set ids))"
  have a: "filter out (map (overwrite post sj dt (set ids)) rows) = filter out rows"
    by (induction rows) (auto simp: overwrite_def out_def)
  have b: "filter out
       (map (\<lambda>i. \<lparr>student_ref = i, subject_ref = sj, adate = dt, status = mark_status post i\<rparr>)
         (news (marked rows sj dt) ids)) = []"
    by (auto simp: filter_empty_conv set_news out_def)
  have "filter out (mark_rows post sj dt ids rows) = filter out rows"
    unfolding mark_rows_closed filter_append a b by simp
  then show ?thesis by (simp only: out_def)
qed

section \<open>The loop and the view\<close>

lemma mark_loop_append:
  "mark_loop u post subj dt (xs @ ys) (d, sc, ec) =
     (case mark_loop u post subj dt xs (d, sc, ec) of
        Inl e \<Rightarrow> Inl e
      | Inr acc \<Rightarrow> mark_loop u post subj dt ys acc)"
  by (induction xs arbitrary: d sc ec) (auto split: sum.splits)

lemma mark_loop_not_integrity:
  "mark_loop u post subj dt sts (d, sc, ec) \<noteq> Inl IntegrityError"
  by (induction sts arbitrary: d sc ec) (auto split: sum.splits)

lemma mark_loop_counts:
  "mark_loop u post subj dt sts (d, sc, ec) = Inr (d', sc', ec') \<Longrightarrow>
     sc' + ec' = sc + ec + length sts \<and> sc \<le> sc' \<and> ec \<le> ec'"
proof (induction sts arbitrary: d sc ec)
  case Nil
  then show ?case by simp
next
  case (Cons st sts)
  show ?case
  proof (cases "u d (student_id st) (subject_id subj) dt (if is_present post st then ''P'' else ''A'')")
    case (Inl e)
    with Cons.prems have e: "e = IntegrityError" by (auto split: if_splits)
    with Inl Cons.prems
    have "mark_loop u post subj dt sts (d, sc, ec + 1) = Inr (d', sc', ec')" by simp
    from Cons.IH [OF this] show ?thesis by simp
  next
    case (Inr d2)
    with Cons.prems
    have "mark_loop u post subj dt sts (d2, sc + 1, ec) = Inr (d', sc', ec')" by simp
    from Cons.IH [OF this] show ?thesis by simp
  qed
qed

lemma mark_attendance_not_integrity:
  "mark_attendance u d pk dt post \<noteq> Inl IntegrityError"
proof (cases "get_object_or_404 (subjects d) pk")
  case (Inl e)
  then have "e = Http404" by (auto simp: get_object_or_404_def split: option.splits)
  with Inl show ?thesis by (simp add: mark_attendance_def)
next
  case (Inr subj)
  show ?thesis
  proof (cases "mark_loop u post subj dt (eligible_students d subj) (d, 0, 0)")
    case (Inl e)
    with mark_loop_not_integrity [of u post subj dt "eligible_students d subj" d 0 0]
    have "e \<noteq> IntegrityError" by auto
    with Inl Inr show ?thesis by (simp add: mark_attendance_def Let_def)
  next
    case r: (Inr acc)
    with Inr show ?thesis by (simp add: mark_attendance_def Let_def split: prod.splits)
  qed
qed

lemma eligible_students_attendances [simp]:
  "eligible_students (d\<lparr>attendances := rows\<rparr>) subj = eligible_students d subj"
  by (simp add: eligible_students_def)

lemma mark_attendance_alone:
  assumes "unique_together (attendances d)"
    and "get_object_or_404 (subjects d) pk = Inr subj"
    and "eligible_students d subj \<noteq> []"
    and "''submit_attendance'' \<in> dom post"
  shows "mark_attendance update_or_create d pk dt post =
           Inr (d\<lparr>attendances :=
                   mark_rows post (subject_id subj) dt
                     (map student_id (eligible_students d subj)) (attendances d)\<rparr>,
                [Message SUCCESS
                   (''Attendance marked successfully for ''
                      @ str (length (eligible_students d subj)) @ '' students!'')],
                Redirect ''view_attendance'')"
proof -
  have "0 < length (eligible_students d subj)" using assms(3) by simp
  then show ?thesis
    using assms(2,3,4)
      mark_loop_alone [OF assms(1)
        roster_foreign_keys [OF get_object_or_404_in_table [OF assms(2)]], of post dt 0 0]
    by (simp add: mark_attendance_def Let_def)
qed











section \<open>Evaluation on the example data\<close>

lemma roster_cs101:
  "eligible_students example_db subject_cs101 = [student_cse1, student_cse2, student_cse3]"
  by (simp add: eligible_students_def example_defs)

lemma lookup_cs101: "get_object_or_404 (subjects example_db) 21 = Inr subject_cs101"
  by (simp add: get_object_or_404_def example_defs)

lemma unique_example: "unique_together (attendances example_db)"
  by (simp add: unique_together_def example_defs)

lemma submit_second: "''submit_attendance'' \<in> dom post_second"
  by (simp add: post_second_def)

lemma first_marking:
  "mark_attendance update_or_create example_db 21 example_date post_first =
     Inr (example_db\<lparr>attendances :=
            [\<lparr>student_ref = 11, subject_ref = 21, adate = example_date, status = ''P''\<rparr>,
             \<lparr>student_ref = 12, subject_ref = 21, adate = example_date, status = ''P''\<rparr>,
             \<lparr>student_ref = 14, subject_ref = 21, adate = example_date, status = ''A''\<rparr>]\<rparr>,
          [Message SUCCESS ''Attendance marked successfully for 3 students!''],
          Redirect ''view_attendance'')"
  by (simp add: mark_attendance_def get_object_or_404_def eligible_students_def
      is_present_def str.simps update_or_create_def create_def foreign_keys_hold_def key_of_def example_defs)

lemmas eval_defs = mark_attendance_def get_object_or_404_def eligible_students_def
  is_present_def str.simps update_or_create_def create_def foreign_keys_hold_def key_of_def example_defs


lemma race_first:
  "mark_loop (losing_race 12) post_first subject_cs101 example_date [student_cse1] (example_db, 0, 0)
     = Inr (example_db\<lparr>attendances :=
              [\<lparr>student_ref = 11, subject_ref = 21, adate = example_date, status = ''P''\<rparr>]\<rparr>,
            1, 0)"
  by (simp add: losing_race_def eval_defs)

lemma race_loses:
  "losing_race 12
     (example_db\<lparr>attendances :=
        [\<lparr>student_ref = 11, subject_ref = 21, adate = example_date, status = ''P''\<rparr>]\<rparr>)
     (student_id student_cse2) (subject_id subject_cs101) example_date
     (if is_present post_first student_cse2 then ''P'' else ''A'') = Inl IntegrityError"
  by (simp add: losing_race_def student_cse2_def)

lemma race_rest:
  "mark_loop (losing_race 12) post_first subject_cs101 example_date [student_cse3]
     (example_db\<lparr>attendances :=
        [\<lparr>student_ref = 11, subject_ref = 21, adate = example_date, status = ''P''\<rparr>]\<rparr>, 1, 0 + 1)
   = Inr (example_db\<lparr>attendances :=
            [\<lparr>student_ref = 11, subject_ref = 21, adate = example_date, status = ''P''\<rparr>,
             \<lparr>student_ref = 14, subject_ref = 21, adate = example_date, status = ''A''\<rparr>]\<rparr>,
          2, 1)"
  by (simp add: losing_race_def eval_defs)

lemma race_roster:
  "mark_loop (losing_race 12) post_first subject_cs101 example_date
     (eligible_students example_db subject_cs101) (example_db, 0, 0)
   = Inr (example_db\<lparr>attendances :=
            [\<lparr>student_ref = 11, subject_ref = 21, adate = example_date, status = ''P''\<rparr>,
             \<lparr>student_ref = 14, subject_ref = 21, adate = example_date, status = ''A''\<rparr>]\<rparr>,
          2, 1)"
  by (simp add: losing_race_def eval_defs)

lemma ledger_after_example:
  "attendances (ledger_after
     [Raw_create \<lparr>student_ref = 11, subject_ref = 21, adate = example_date, status = ''P''\<rparr>,
      Raw_create \<lparr>student_ref = 11, subject_ref = 21, adate = example_date, status = ''A''\<rparr>,
      Mark 21 example_date post_second]
     example_db)
   = [\<lparr>student_ref = 11, subject_ref = 21, adate = example_date, status = ''A''\<rparr>,
      \<lparr>student_ref = 12, subject_ref = 21, adate = example_date, status = ''A''\<rparr>,
      \<lparr>student_ref = 14, subject_ref = 21, adate = example_date, status = ''P''\<rparr>]"
  by (simp add: ledger_after_def eval_defs)

section \<open>Rounding to binary64\<close>

lemma bit_length_bounds:
  "0 < n \<Longrightarrow> 2 ^ (bit_length n - 1) \<le> n \<and> n < 2 ^ bit_length n"
proof (induction n rule: bit_length.induct)
  case (1 n)
  show ?case
  proof (cases "n div 2 \<le> 0")
    case True
    with "1.prems" have "n = 1" by linarith
    then show ?thesis by (simp add: bit_length.simps [of 1] bit_length.simps [of 0])
  next
    case False
    then have pos: "0 < n div 2" by simp
    from "1.IH" "1.prems" pos
    have ih: "2 ^ (bit_length (n div 2) - 1) \<le> n div 2" "n div 2 < 2 ^ bit_length (n div 2)"
      by simp_all
    have bl: "bit_length n = Suc (bit_length (n div 2))"
      using "1.prems" by (simp add: bit_length.simps [of n])
    have b1: "0 < bit_length (n div 2)"
      using pos by (simp add: bit_length.simps [of "n div 2"])
    then obtain k where k: "bit_length (n div 2) = Suc k" by (cases "bit_length (n div 2)") auto
    from ih k have "2 * 2 ^ k \<le> 2 * (n div 2)" by simp
    also have "\<dots> \<le> n" by linarith
    finally have lo: "2 ^ (bit_length n - 1) \<le> n" by (simp add: bl k)
    from ih(2) have "n div 2 + 1 \<le> 2 ^ bit_length (n div 2)" by simp
    then have "2 * (n div 2) + 2 \<le> 2 * 2 ^ bit_length (n div 2)" by simp
    moreover have "n < 2 * (n div 2) + 2" by linarith
    ultimately have hi: "n < 2 ^ bit_length n" by (simp add: bl)
    from lo hi show ?thesis by simp
  qed
qed

lemma round_half_even_error: "\<bar>of_int (round_half_even q) - q\<bar> \<le> 1 / 2"
proof -
  have "of_int \<lfloor>q\<rfloor> \<le> q" "q < of_int \<lfloor>q\<rfloor> + 1" by linarith+
  then show ?thesis by (auto simp: round_half_even_def Let_def)
qed

lemma binary64_zero [simp]: "binary64 0 = 0"
  by (simp add: binary64_def)

lemma normal_exponent:
  fixes x :: rat
  assumes "0 < x"
  shows "\<exists>s. binary64 x = of_int (round_half_even (x * 2 powi (min s 1074))) / 2 powi (min s 1074)
             \<and> 2 ^ 52 \<le> x * 2 powi s \<and> x * 2 powi s < 2 ^ 53"
proof -
  obtain n d where q: "quotient_of x = (n, d)" by (cases "quotient_of x")
  then have d: "0 < d" by (rule quotient_of_denom_pos)
  from q have x: "x = of_int n / of_int d" by (rule quotient_of_div)
  with assms d have n: "0 < n" by (simp add: zero_less_divide_iff)
  define bn where "bn = bit_length n"
  define bd where "bd = bit_length d"
  define s0 where "s0 = 53 + int bd - int bn"
  define s1 where "s1 = (if 2 ^ 53 \<le> x * 2 powi s0 then s0 - 1 else s0)"
  from bit_length_bounds [OF n] have nb: "2 ^ (bn - 1) \<le> n" "n < 2 ^ bn" by (simp_all add: bn_def)
  from bit_length_bounds [OF d] have db: "2 ^ (bd - 1) \<le> d" "d < 2 ^ bd" by (simp_all add: bd_def)
  have bn0: "0 < bn" using n by (simp add: bn_def bit_length.simps [of n])
  have bd0: "0 < bd" using d by (simp add: bd_def bit_length.simps [of d])
  have nr: "(2::rat) ^ bn \<le> 2 * of_int n" "(of_int n :: rat) < 2 ^ bn"
  proof -
    from bn0 obtain k where k: "bn = Suc k" by (cases bn) auto
    with nb(1) have "2 ^ bn \<le> 2 * n" by simp
    then have "(of_int (2 ^ bn) :: rat) \<le> of_int (2 * n)" by (simp only: of_int_le_iff)
    then show "(2::rat) ^ bn \<le> 2 * of_int n" by simp
    from nb(2) have "(of_int n :: rat) < of_int (2 ^ bn)" by (simp only: of_int_less_iff)
    then show "(of_int n :: rat) < 2 ^ bn" by simp
  qed
  have dr: "(2::rat) ^ bd \<le> 2 * of_int d" "(of_int d :: rat) < 2 ^ bd"
  proof -
    from bd0 obtain k where k: "bd = Suc k" by (cases bd) auto
    with db(1) have "2 ^ bd \<le> 2 * d" by simp
    then have "(of_int (2 ^ bd) :: rat) \<le> of_int (2 * d)" by (simp only: of_int_le_iff)
    then show "(2::rat) ^ bd \<le> 2 * of_int d" by simp
    from db(2) have "(of_int d :: rat) < of_int (2 ^ bd)" by (simp only: of_int_less_iff)
    then show "(of_int d :: rat) < 2 ^ bd" by simp
  qed
  have p0: "(2::rat) powi s0 = 2 ^ 53 * 2 ^ bd / 2 ^ bn"
    by (simp add: s0_def power_int_diff power_int_add)
  have dpos: "(0::rat) < of_int d" and npos: "(0::rat) < of_int n" using d n by simp_all
  have xs0: "x * 2 powi s0 = 2 ^ 53 * (of_int n * 2 ^ bd) / (of_int d * 2 ^ bn)"
    by (simp add: p0 x)
  have lo0: "2 ^ 52 < x * 2 powi s0"
  proof -
    have "(2::rat) ^ 52 * (of_int d * 2 ^ bn) < 2 ^ 52 * (2 ^ bd * (2 * of_int n))"
      using dr(2) nr(1) dpos npos
      by (intro mult_strict_left_mono mult_less_le_imp_less) simp_all
    also have "\<dots> = 2 ^ 53 * (of_int n * 2 ^ bd)" by simp
    finally show ?thesis
      unfolding xs0 using dpos by (simp add: pos_less_divide_eq)
  qed
  have hi0: "x * 2 powi s0 < 2 ^ 54"
  proof -
    have "(2::rat) ^ 53 * (of_int n * 2 ^ bd) < 2 ^ 53 * (2 ^ bn * (2 * of_int d))"
      using dr(1) nr(2) dpos npos
      by (intro mult_strict_left_mono mult_less_le_imp_less) simp_all
    also have "\<dots> = 2 ^ 54 * (of_int d * 2 ^ bn)" by simp
    finally show ?thesis
      unfolding xs0 using dpos by (simp add: pos_divide_less_eq)
  qed
  have half: "(2::rat) powi (s0 - 1) = 2 powi s0 / 2"
    by (simp add: power_int_diff)
  have lo1: "2 ^ 52 \<le> x * 2 powi s1" and hi1: "x * 2 powi s1 < 2 ^ 53"
    using lo0 hi0 by (auto simp: s1_def half)
  have "binary64 x = of_int (round_half_even (x * 2 powi (min s1 1074))) / 2 powi (min s1 1074)"
    using assms q
    by (simp add: binary64_def Let_def s1_def s0_def bn_def bd_def)
  with lo1 hi1 show ?thesis by blast
qed

lemma binary64_error:
  fixes x :: rat
  assumes "2 powi (- 1022) \<le> x"
  shows "\<bar>binary64 x - x\<bar> \<le> x / 2 ^ 53"
proof -
  have "(0::rat) < 2 powi (- 1022)" by simp
  with assms have x0: "0 < x" by linarith
  from normal_exponent [OF x0] obtain s where
    b: "binary64 x = of_int (round_half_even (x * 2 powi (min s 1074))) / 2 powi (min s 1074)"
    and lo: "2 ^ 52 \<le> x * 2 powi s" and hi: "x * 2 powi s < 2 ^ 53" by blast
  have ps: "(0::rat) < 2 powi s" by simp
  have "s \<le> 1074"
  proof (rule ccontr)
    assume "\<not> s \<le> 1074"
    then have "1075 \<le> s" by simp
    then have "(2::rat) powi 1075 \<le> 2 powi s" by (intro power_int_increasing) simp_all
    then have "2 powi (- 1022) * (2::rat) powi 1075 \<le> x * 2 powi s"
      using assms x0 by (intro mult_mono) simp_all
    moreover have "2 powi (- 1022) * (2::rat) powi 1075 = 2 ^ 53"
      by (simp add: power_int_add [symmetric])
    ultimately show False using hi by simp
  qed
  then have m: "min s 1074 = s" by simp
  define q where "q = x * 2 powi s"
  have e: "\<bar>of_int (round_half_even q) - q\<bar> \<le> 1 / 2" by (rule round_half_even_error)
  have "binary64 x - x = (of_int (round_half_even q) - q) / 2 powi s"
    using ps by (simp add: b m q_def field_simps)
  then have "\<bar>binary64 x - x\<bar> = \<bar>of_int (round_half_even q) - q\<bar> / 2 powi s"
    using ps by (simp add: abs_divide)
  also have "\<dots> \<le> (1 / 2) / 2 powi s"
    using e ps by (intro divide_right_mono) simp_all
  also have "\<dots> \<le> x / 2 ^ 53"
  proof -
    from lo have "2 ^ 52 \<le> x * 2 powi s" .
    then have "(1 / 2) * 2 ^ 53 \<le> x * 2 powi s" by simp
    then show ?thesis using ps by (simp add: field_simps)
  qed
  finally show ?thesis .
qed

lemma quotient_above_smallest_normal:
  fixes p t :: int
  assumes "1 \<le> p" and "0 < t" and "t \<le> 2 ^ 1022"
  shows "2 powi (- 1022) \<le> (of_int p / of_int t :: rat)"
proof -
  have tpos: "(0::rat) < of_int t" using assms(2) by simp
  have "(of_int t :: rat) \<le> of_int (2 ^ 1022)" using assms(3) by (simp only: of_int_le_iff)
  then have tle: "(of_int t :: rat) \<le> 2 ^ 1022" by (simp only: of_int_power of_int_numeral)
  have "inverse ((2::rat) ^ 1022) \<le> inverse (of_int t)"
    using tle tpos by (rule le_imp_inverse_le)
  also have "inverse (of_int t :: rat) = 1 / of_int t" by (simp only: inverse_eq_divide)
  also have "\<dots> \<le> of_int p / of_int t"
    using assms(1) tpos by (intro divide_right_mono) simp_all
  finally have "inverse ((2::rat) ^ 1022) \<le> of_int p / of_int t" .
  moreover have "(2::rat) powi (- 1022) = inverse (2 ^ 1022)"
    by (simp only: power_int_minus power_int_numeral)
  ultimately show ?thesis by (simp only:)
qed

lemma two_roundings_bound: "(1 + 1 / 2 ^ 53) * 100 / 2 ^ 53 + 100 * (1 / 2 ^ 53) \<le> (1::rat) / 2 ^ 45"
  by simp

lemma two_roundings:
  fixes x a y u :: rat
  assumes x0: "0 < x" and x1: "x \<le> 1" and u0: "0 < u"
    and ea: "\<bar>a - x\<bar> \<le> x * u" and ey: "\<bar>y - a * 100\<bar> \<le> a * 100 * u"
  shows "\<bar>y - 100 * x\<bar> \<le> (1 + u) * 100 * u + 100 * u"
proof -
  have "a - x \<le> \<bar>a - x\<bar>" by (rule abs_ge_self)
  with ea have ahi: "a \<le> x + x * u" by simp
  have xu: "x * u \<le> u" using x1 u0 by simp
  have "y - 100 * x = (y - a * 100) + 100 * (a - x)" by simp
  then have "\<bar>y - 100 * x\<bar> \<le> \<bar>y - a * 100\<bar> + \<bar>100 * (a - x)\<bar>"
    by (simp only: abs_triangle_ineq)
  also have "\<bar>100 * (a - x)\<bar> = 100 * \<bar>a - x\<bar>" by (simp only: abs_mult abs_numeral)
  finally have "\<bar>y - 100 * x\<bar> \<le> \<bar>y - a * 100\<bar> + 100 * \<bar>a - x\<bar>" .
  also have "\<dots> \<le> a * 100 * u + 100 * (x * u)"
    using ey ea by (intro add_mono mult_left_mono) simp_all
  also have "\<dots> \<le> (x + x * u) * 100 * u + 100 * (x * u)"
    using ahi u0 by (simp add: mult_right_mono)
  also have "\<dots> = (1 + u) * 100 * u * x + 100 * (x * u)" by (simp add: algebra_simps)
  also have "\<dots> \<le> (1 + u) * 100 * u * 1 + 100 * u"
    using x1 x0 u0 xu by (intro add_mono mult_left_mono) simp_all
  finally show ?thesis by simp
qed

lemma percentage_decimal_near_product:
  "\<bar>percentage_decimal p t - binary64 (binary64 (of_int p / of_int t) * 100)\<bar> \<le> 1 / 200"
proof -
  define y where "y = binary64 (binary64 (of_int p / of_int t) * 100)"
  define k :: rat where "k = of_int (round_half_even (y * 100))"
  have e: "\<bar>k - y * 100\<bar> \<le> 1 / 2"
    unfolding k_def by (rule round_half_even_error)
  have "k / 100 - y = (k - y * 100) / 100" by simp
  then have "\<bar>k / 100 - y\<bar> = \<bar>k - y * 100\<bar> / 100" by (simp only: abs_divide abs_numeral)
  also have "\<dots> \<le> (1 / 2) / 100" using e by (intro divide_right_mono) simp_all
  finally have "\<bar>k / 100 - y\<bar> \<le> 1 / 200" by simp
  then show ?thesis by (simp only: percentage_decimal_def y_def k_def)
qed

lemma product_near_quotient:
  assumes "0 \<le> p" and "p \<le> t" and "0 < t" and "t \<le> 2 ^ 1022"
  shows "\<bar>binary64 (binary64 (of_int p / of_int t) * 100) - 100 * (of_int p / of_int t)\<bar>
           \<le> 1 / 2 ^ 45"
proof (cases "p = 0")
  case True
  then show ?thesis by simp
next
  case False
  with assms(1) have p1: "1 \<le> p" by simp
  define x :: rat where "x = of_int p / of_int t"
  define a where "a = binary64 x"
  define y where "y = binary64 (a * 100)"
  define u :: rat where "u = 1 / 2 ^ 53"
  have u0: "0 < u" and u1: "u \<le> 1 / 2" by (simp_all add: u_def)
  have tpos: "(0::rat) < of_int t" using assms(3) by simp
  have x1: "x \<le> 1" using assms(2) tpos by (simp add: x_def)
  have x0: "0 < x" using p1 tpos by (simp add: x_def)
  have xlow: "2 powi (- 1022) \<le> x"
    unfolding x_def using p1 assms(3,4) by (rule quotient_above_smallest_normal)
  from binary64_error [OF xlow] have ea: "\<bar>a - x\<bar> \<le> x * u" by (simp add: a_def u_def)
  have "x - a \<le> \<bar>a - x\<bar>" by (simp add: abs_le_iff)
  with ea have "x - x * u \<le> a" by simp
  moreover have "x * u \<le> x * (1 / 2)" using u1 x0 by (intro mult_left_mono) simp_all
  ultimately have "x / 2 \<le> a" by simp
  then have "x \<le> a * 100" using x0 by simp
  with xlow have "2 powi (- 1022) \<le> a * 100" by (rule order_trans)
  from binary64_error [OF this] have ey: "\<bar>y - a * 100\<bar> \<le> a * 100 * u"
    by (simp add: y_def u_def)
  from two_roundings [OF x0 x1 u0 ea ey]
  have "\<bar>y - 100 * x\<bar> \<le> (1 + u) * 100 * u + 100 * u" .
  also have "\<dots> \<le> 1 / 2 ^ 45" using two_roundings_bound by (simp add: u_def)
  finally show ?thesis by (simp only: y_def a_def x_def)
qed

lemma percentage_decimal_near_quotient:
  assumes "0 \<le> p" and "p \<le> t" and "0 < t" and "t \<le> 2 ^ 1022"
  shows "\<bar>percentage_decimal p t - 100 * (of_int p / of_int t)\<bar> \<le> 1 / 200 + 1 / 2 ^ 45"
proof -
  define D where "D = percentage_decimal p t"
  define y where "y = binary64 (binary64 (of_int p / of_int t) * 100)"
  define z :: rat where "z = 100 * (of_int p / of_int t)"
  have 1: "\<bar>D - y\<bar> \<le> 1 / 200"
    unfolding D_def y_def by (rule percentage_decimal_near_product)
  have 2: "\<bar>y - z\<bar> \<le> 1 / 2 ^ 45"
    unfolding y_def z_def using assms by (rule product_near_quotient)
  have "D - z = (D - y) + (y - z)" by simp
  then have "\<bar>D - z\<bar> \<le> \<bar>D - y\<bar> + \<bar>y - z\<bar>" by (simp only: abs_triangle_ineq)
  also have "\<dots> \<le> 1 / 200 + 1 / 2 ^ 45" using 1 2 by (rule add_mono)
  finally show ?thesis by (simp only: D_def z_def)
qed

lemma count_nonneg: "0 \<le> count_total d st subj" "0 \<le> count_all d st"
  by (simp_all add: count_total_def count_all_def)

lemma code_23_160: "percentage_decimal 23 160 = 1437 / 100"
  by code_simp

lemma code_1_32: "percentage_decimal 1 32 = 312 / 100"
  by code_simp

lemma code_49_160: "percentage_decimal 49 160 = 3063 / 100"
  by code_simp

lemma spec_23_160:
  "spec_percentage round_half_even 23 160 = 1438 / 100"
  "spec_percentage round_half_up 23 160 = 1438 / 100"
  by code_simp+

lemma spec_1_32:
  "spec_percentage round_half_even 1 32 = 312 / 100"
  "spec_percentage round_half_up 1 32 = 313 / 100"
  by code_simp+

lemma spec_49_160:
  "spec_percentage round_half_even 49 160 = 3062 / 100"
  "spec_percentage round_half_up 49 160 = 3063 / 100"
  by code_simp+

lemma float_23_160:
  "round_percentage 23 160 = 8089590830664253 / 562949953421312"
  "binary64 (1438 / 100) = 8095220330198467 / 562949953421312"
  by code_simp+

lemma code_1_3: "percentage_decimal 1 3 = 3333 / 100"
  by code_simp

lemma float_50: "round_percentage 1 2 = 50"
  by code_simp

section \<open>The claims\<close>

text \<open>
  C1. The eligibility check passes for a student and a subject iff their departments are
  equal and their years are equal; the roster computed for a subject holds exactly the
  students of the table that match the subject in both fields, each as often as the table
  holds it, and it is in ascending order of roll number.
\<close>

theorem eligible_roster_exact_and_sorted:
  "(clean st subj = Inr () \<longleftrightarrow>
      student_department st = subject_department subj \<and> student_year st = subject_year subj)
   \<and> mset (eligible_students d subj) =
       filter_mset (\<lambda>s. clean s subj = Inr ()) (mset (students d))
   \<and> set (eligible_students d subj) =
       {s \<in> set (students d).
          student_department s = subject_department subj \<and> student_year s = subject_year subj}
   \<and> sorted (map roll_number (eligible_students d subj))"
proof -
  have iff: "\<And>s. clean s subj = Inr () \<longleftrightarrow>
      student_department s = subject_department subj \<and> student_year s = subject_year subj"
    by (simp add: clean_def)
  have "(\<lambda>s. clean s subj = Inr ()) =
      (\<lambda>s. student_department s = subject_department subj \<and> student_year s = subject_year subj)"
    using iff by blast
  then have m: "mset (eligible_students d subj) =
       filter_mset (\<lambda>s. clean s subj = Inr ()) (mset (students d))"
    by (simp add: eligible_students_def)
  have s: "set (eligible_students d subj) =
       {s \<in> set (students d).
          student_department s = subject_department subj \<and> student_year s = subject_year subj}"
    by (auto simp: eligible_students_def)
  have o: "sorted (map roll_number (eligible_students d subj))"
    by (simp add: eligible_students_def)
  from iff [of st] m s o show ?thesis by blast
qed

text \<open>The statement of C1 on the example data.\<close>

theorem eligible_roster_witness:
  "clean student_cse1 subject_cs101 = Inr ()
   \<and> clean student_ece1 subject_cs101 \<noteq> Inr ()
   \<and> eligible_students example_db subject_cs101 = [student_cse1, student_cse2, student_cse3]
   \<and> sorted (map roll_number (eligible_students example_db subject_cs101))"
  using eligible_roster_exact_and_sorted [of student_cse1 subject_cs101 example_db]
    eligible_roster_exact_and_sorted [of student_ece1 subject_cs101 example_db]
  by (simp add: roster_cs101) (simp add: example_defs)



text \<open>
  C3. When a first request to \<^const>\<open>mark_attendance\<close> for a subject and a date has
  returned, a second marking request for the same subject and date (one that submits the
  attendance form) gives exactly the result, database included, that the second request
  gives on the database before the first: the first request's marks leave no trace.
\<close>

theorem remarking_overwrites:
  assumes "unique_together (attendances d)"
    and "''submit_attendance'' \<in> dom post2"
    and "mark_attendance update_or_create d pk dt post1 = Inr (d1, ms1, r1)"
  shows "mark_attendance update_or_create d1 pk dt post2
           = mark_attendance update_or_create d pk dt post2
         \<and> (\<exists>d2 ms2 r2. mark_attendance update_or_create d pk dt post2 = Inr (d2, ms2, r2))"
proof -
  from assms(3) obtain subj where subj: "get_object_or_404 (subjects d) pk = Inr subj"
    by (cases "get_object_or_404 (subjects d) pk") (auto simp: mark_attendance_def)
  let ?sts = "eligible_students d subj"
  show ?thesis
  proof (cases "?sts = []")
    case True
    with subj assms(3) have "d1 = d" by (simp add: mark_attendance_def)
    with True subj show ?thesis by (simp add: mark_attendance_def)
  next
    case False
    have second: "\<exists>d2 ms2 r2. mark_attendance update_or_create d pk dt post2 = Inr (d2, ms2, r2)"
      using mark_attendance_alone [OF assms(1) subj False assms(2)] by simp
    show ?thesis
    proof (cases "''submit_attendance'' \<in> dom post1")
      case True
      let ?rows1 = "mark_rows post1 (subject_id subj) dt (map student_id ?sts) (attendances d)"
      from mark_attendance_alone [OF assms(1) subj False True, of dt] assms(3)
      have d1: "d1 = d\<lparr>attendances := ?rows1\<rparr>" by simp
      have u1: "unique_together (attendances d1)"
        using assms(1) by (simp add: d1 unique_mark_rows)
      have s1: "get_object_or_404 (subjects d1) pk = Inr subj" using subj by (simp add: d1)
      have e1: "eligible_students d1 subj = ?sts" by (simp add: d1)
      then have n1: "eligible_students d1 subj \<noteq> []" using False by simp
      have "mark_attendance update_or_create d1 pk dt post2
              = mark_attendance update_or_create d pk dt post2"
        unfolding mark_attendance_alone [OF u1 s1 n1 assms(2)]
          mark_attendance_alone [OF assms(1) subj False assms(2)] e1
        by (simp add: d1 mark_rows_twice)
      with second show ?thesis by blast
    next
      case no: False
      with subj False assms(3) have "d1 = d"
        by (simp add: mark_attendance_def Let_def)
      with second show ?thesis by simp
    qed
  qed
qed

text \<open>The statement of C3 on the example data.\<close>

theorem remarking_overwrites_witness:
  "mark_attendance update_or_create
     (example_db\<lparr>attendances :=
        [\<lparr>student_ref = 11, subject_ref = 21, adate = example_date, status = ''P''\<rparr>,
         \<lparr>student_ref = 12, subject_ref = 21, adate = example_date, status = ''P''\<rparr>,
         \<lparr>student_ref = 14, subject_ref = 21, adate = example_date, status = ''A''\<rparr>]\<rparr>)
     21 example_date post_second
   = mark_attendance update_or_create example_db 21 example_date post_second
   \<and> mark_attendance update_or_create example_db 21 example_date post_second
     = Inr (example_db\<lparr>attendances :=
            [\<lparr>student_ref = 11, subject_ref = 21, adate = example_date, status = ''A''\<rparr>,
             \<lparr>student_ref = 12, subject_ref = 21, adate = example_date, status = ''A''\<rparr>,
             \<lparr>student_ref = 14, subject_ref = 21, adate = example_date, status = ''P''\<rparr>]\<rparr>,
          [Message SUCCESS ''Attendance marked successfully for 3 students!''],
          Redirect ''view_attendance'')"
proof -
  have second: "mark_attendance update_or_create example_db 21 example_date post_second
     = Inr (example_db\<lparr>attendances :=
            [\<lparr>student_ref = 11, subject_ref = 21, adate = example_date, status = ''A''\<rparr>,
             \<lparr>student_ref = 12, subject_ref = 21, adate = example_date, status = ''A''\<rparr>,
             \<lparr>student_ref = 14, subject_ref = 21, adate = example_date, status = ''P''\<rparr>]\<rparr>,
          [Message SUCCESS ''Attendance marked successfully for 3 students!''],
          Redirect ''view_attendance'')"
    by (simp add: mark_attendance_def get_object_or_404_def eligible_students_def
        is_present_def str.simps update_or_create_def create_def foreign_keys_hold_def key_of_def example_defs)
  from remarking_overwrites [OF unique_example submit_second first_marking] second
  show ?thesis by simp
qed

text \<open>
  C4. A marking request for a subject with a non-empty roster, on a ledger that satisfies
  the uniqueness constraint, returns normally, and afterwards every student of the roster
  has exactly one row for the subject and date: its status is \<^verbatim>\<open>P\<close> when the POST field
  \<^verbatim>\<open>student_<id>\<close> is \<^verbatim>\<open>on\<close>, and \<^verbatim>\<open>A\<close> when the field is missing or has any other value.
\<close>

theorem every_eligible_student_marked:
  assumes "unique_together (attendances d)"
    and "get_object_or_404 (subjects d) pk = Inr subj"
    and "eligible_students d subj \<noteq> []"
    and "''submit_attendance'' \<in> dom post"
  shows "\<exists>d' ms.
           mark_attendance update_or_create d pk dt post = Inr (d', ms, Redirect ''view_attendance'')
           \<and> (\<forall>st \<in> set (eligible_students d subj).
                map status
                  (filter (\<lambda>r. key_of r = (student_id st, subject_id subj, dt)) (attendances d'))
                = [if post (''student_'' @ str (student_id st)) = Some ''on'' then ''P'' else ''A''])"
proof -
  let ?ids = "map student_id (eligible_students d subj)"
  let ?rows = "mark_rows post (subject_id subj) dt ?ids (attendances d)"
  have "map status (filter (\<lambda>r. key_of r = (student_id st, subject_id subj, dt)) ?rows)
          = [if post (''student_'' @ str (student_id st)) = Some ''on'' then ''P'' else ''A'']"
    if "st \<in> set (eligible_students d subj)" for st
  proof -
    from that have "student_id st \<in> set ?ids" by simp
    from mark_rows_status [OF assms(1) this, of "subject_id subj" dt post]
    show ?thesis by (simp add: mark_status_def)
  qed
  then show ?thesis
    unfolding mark_attendance_alone [OF assms] by simp
qed

text \<open>The statement of C4 on the example data.\<close>

theorem every_eligible_student_marked_witness:
  "\<exists>d'. mark_attendance update_or_create example_db 21 example_date post_first
           = Inr (d', [Message SUCCESS ''Attendance marked successfully for 3 students!''],
                  Redirect ''view_attendance'')
      \<and> map status (filter (\<lambda>r. key_of r = (11, 21, example_date)) (attendances d')) = [''P'']
      \<and> map status (filter (\<lambda>r. key_of r = (12, 21, example_date)) (attendances d')) = [''P'']
      \<and> map status (filter (\<lambda>r. key_of r = (14, 21, example_date)) (attendances d')) = [''A'']"
proof -
  have ne: "eligible_students example_db subject_cs101 \<noteq> []" by (simp add: roster_cs101)
  have sub: "''submit_attendance'' \<in> dom post_first" by (simp add: post_first_def)
  from every_eligible_student_marked [OF unique_example lookup_cs101 ne sub, of example_date]
  obtain d' ms where
    r: "mark_attendance update_or_create example_db 21 example_date post_first
          = Inr (d', ms, Redirect ''view_attendance'')"
    by blast
  then show ?thesis by (auto simp: first_marking key_of_def)
qed

text \<open>
  C5. Whatever the storage operation is: when the loop has processed the students before
  \<open>st\<close> and the storage raises \<^verbatim>\<open>IntegrityError\<close> for \<open>st\<close>, the loop goes on with the
  remaining students from the same database, with the error counter incremented and the
  success counter unchanged; the loop and the view never end in \<^verbatim>\<open>IntegrityError\<close>; and
  when the loop returns, the error counter has grown and the two counters account for
  every student.
\<close>

theorem conflict_is_counted:
  assumes "mark_loop upsert post subj dt before (d, sc, ec) = Inr (d1, sc1, ec1)"
    and "upsert d1 (student_id st) (subject_id subj) dt
           (if is_present post st then ''P'' else ''A'') = Inl IntegrityError"
  shows "mark_loop upsert post subj dt (before @ st # rest) (d, sc, ec)
           = mark_loop upsert post subj dt rest (d1, sc1, ec1 + 1)
         \<and> mark_loop upsert post subj dt (before @ st # rest) (d, sc, ec) \<noteq> Inl IntegrityError
         \<and> (\<forall>d' sc' ec'.
              mark_loop upsert post subj dt (before @ st # rest) (d, sc, ec) = Inr (d', sc', ec')
              \<longrightarrow> ec < ec' \<and> sc' + ec' = sc + ec + length (before @ st # rest))
         \<and> mark_attendance upsert d0 pk dt post \<noteq> Inl IntegrityError"
proof -
  have eq: "mark_loop upsert post subj dt (before @ st # rest) (d, sc, ec)
           = mark_loop upsert post subj dt rest (d1, sc1, ec1 + 1)"
    using assms by (simp add: mark_loop_append)
  have le: "ec \<le> ec1" using mark_loop_counts [OF assms(1)] by simp
  have cnt: "ec < ec' \<and> sc' + ec' = sc + ec + length (before @ st # rest)"
    if "mark_loop upsert post subj dt (before @ st # rest) (d, sc, ec) = Inr (d', sc', ec')"
    for d' sc' ec'
  proof -
    from that eq have "mark_loop upsert post subj dt rest (d1, sc1, ec1 + 1) = Inr (d', sc', ec')"
      by simp
    from mark_loop_counts [OF this] le mark_loop_counts [OF that] show ?thesis by simp
  qed
  from eq cnt mark_loop_not_integrity mark_attendance_not_integrity show ?thesis by blast
qed

text \<open>The statement of C5 on the example data.\<close>

theorem conflict_is_counted_witness:
  "mark_loop (losing_race 12) post_first subject_cs101 example_date
     ([student_cse1] @ student_cse2 # [student_cse3]) (example_db, 0, 0)
   = Inr (example_db\<lparr>attendances :=
            [\<lparr>student_ref = 11, subject_ref = 21, adate = example_date, status = ''P''\<rparr>,
             \<lparr>student_ref = 14, subject_ref = 21, adate = example_date, status = ''A''\<rparr>]\<rparr>,
          2, 1)"
  by (simp only: conflict_is_counted [OF race_first race_loses, of "[student_cse3]",
        THEN conjunct1] race_rest)

text \<open>
  C6, as the code has it. At each of the four places the percentage is the integer \<^verbatim>\<open>0\<close>
  when the total is \<^verbatim>\<open>0\<close>, with no division, and otherwise the float that
  \<^verbatim>\<open>round((present / total) * 100, 2)\<close> gives: the float nearest to the two-place decimal
  that is nearest to the float product \<^verbatim>\<open>(present / total) * 100\<close>. That decimal is within
  \<open>0.005\<close> of the float product and, for counts with \<open>0 \<le> present \<le> total\<close>, within
  \<open>0.005 + 2\<close> to the \<open>-45\<close> of the exact \<open>100 * present / total\<close>.
\<close>

theorem percentage_is_binary64_rounding:
  "get_attendance_percentage d st (Some subj)
     = attendance_percent (count_present d st subj) (count_total d st subj)
   \<and> get_attendance_percentage d st None
     = attendance_percent (count_all_present d st) (count_all d st)
   \<and> dashboard_percentage d st = attendance_percent (count_all_present d st) (count_all d st)
   \<and> (\<forall>e \<in> set (student_data d).
        data_percentage e = attendance_percent (present_classes e) (total_classes e))
   \<and> (\<forall>e \<in> set (subject_attendance round_percentage d st).
        percentage e = attendance_percent (present e) (total e))
   \<and> attendance_percent p 0 = PyInt 0
   \<and> (0 < t \<longrightarrow> attendance_percent p t = PyFloat (binary64 (percentage_decimal p t)))
   \<and> \<bar>percentage_decimal p t - binary64 (binary64 (of_int p / of_int t) * 100)\<bar> \<le> 1 / 200
   \<and> (0 \<le> p \<and> p \<le> t \<and> 0 < t \<and> t \<le> 2 ^ 1022 \<longrightarrow>
        \<bar>percentage_decimal p t - 100 * (of_int p / of_int t)\<bar> \<le> 1 / 200 + 1 / 2 ^ 45)"
proof -
  have a: "get_attendance_percentage d st (Some subj)
     = attendance_percent (count_present d st subj) (count_total d st subj)"
    using count_nonneg(1) [of d st subj]
    by (auto simp: get_attendance_percentage_def attendance_percent_def)
  have b: "get_attendance_percentage d st None
     = attendance_percent (count_all_present d st) (count_all d st)"
    using count_nonneg(2) [of d st]
    by (auto simp: get_attendance_percentage_def attendance_percent_def)
  have c: "dashboard_percentage d st
     = attendance_percent (count_all_present d st) (count_all d st)"
    by (simp add: dashboard_percentage_def attendance_percent_def Let_def)
  have e: "\<forall>e \<in> set (student_data d).
        data_percentage e = attendance_percent (present_classes e) (total_classes e)"
    by (auto simp: student_data_def attendance_percent_def Let_def)
  have f: "\<forall>e \<in> set (subject_attendance round_percentage d st).
        percentage e = attendance_percent (present e) (total e)"
    by (auto simp: subject_attendance_def attendance_percent_def Let_def)
  have g: "attendance_percent p 0 = PyInt 0" by (simp add: attendance_percent_def)
  have h: "0 < t \<longrightarrow> attendance_percent p t = PyFloat (binary64 (percentage_decimal p t))"
    by (simp add: attendance_percent_def round_percentage_def)
  have i: "\<bar>percentage_decimal p t - binary64 (binary64 (of_int p / of_int t) * 100)\<bar>
             \<le> 1 / 200"
    by (rule percentage_decimal_near_product)
  have j: "0 \<le> p \<and> p \<le> t \<and> 0 < t \<and> t \<le> 2 ^ 1022 \<longrightarrow>
        \<bar>percentage_decimal p t - 100 * (of_int p / of_int t)\<bar> \<le> 1 / 200 + 1 / 2 ^ 45"
    using percentage_decimal_near_quotient [of p t] by blast
  from a b c e f g h i j show ?thesis by (intro conjI)
qed

text \<open>
  23 of 160 is \<open>14.375\<close> exactly, which both rounding modes take to \<open>14.38\<close>; the float
  product is just below and the code gives \<open>14.37\<close>. 1 of 32 gives \<open>3.12\<close>, which is
  half-to-even and not half-up; 49 of 160 gives \<open>30.63\<close>, which is half-up and not
  half-to-even.
\<close>

theorem float_rounding_is_neither_mode:
  "percentage_decimal 23 160 = 1437 / 100
   \<and> spec_percentage round_half_even 23 160 = 1438 / 100
   \<and> spec_percentage round_half_up 23 160 = 1438 / 100
   \<and> round_percentage 23 160 \<noteq> binary64 (1438 / 100)
   \<and> percentage_decimal 1 32 = 312 / 100
   \<and> spec_percentage round_half_up 1 32 = 313 / 100
   \<and> percentage_decimal 49 160 = 3063 / 100
   \<and> spec_percentage round_half_even 49 160 = 3062 / 100"
  unfolding code_23_160 code_1_32 code_49_160 spec_23_160 spec_1_32 spec_49_160 float_23_160
  by simp

text \<open>The statement of C6 on the example data.\<close>

theorem percentage_is_binary64_rounding_witness:
  "get_attendance_percentage example_db_marked student_cse1 (Some subject_cs101) = PyFloat 50
   \<and> get_attendance_percentage example_db_marked student_cse1 (Some subject_cs102) = PyInt 0
   \<and> attendance_percent 1 3 = PyFloat (binary64 (3333 / 100))
   \<and> \<bar>(3333 / 100 :: rat) - 100 * (1 / 3)\<bar> \<le> 1 / 200 + 1 / 2 ^ 45"
proof -
  have c1: "count_present example_db_marked student_cse1 subject_cs101 = 1"
    "count_total example_db_marked student_cse1 subject_cs101 = 2"
    "count_present example_db_marked student_cse1 subject_cs102 = 0"
    "count_total example_db_marked student_cse1 subject_cs102 = 0"
    by (simp_all add: count_present_def count_total_def example_db_marked_def example_defs)
  have r: "(0::int) \<le> 1 \<and> (1::int) \<le> 3 \<and> (0::int) < 3 \<and> (3::int) \<le> 2 ^ 1022" by simp
  note t1 = percentage_is_binary64_rounding [of example_db_marked student_cse1 subject_cs101 1 3]
  note t2 = percentage_is_binary64_rounding [of example_db_marked student_cse1 subject_cs102 1 3]
  from t1 have "get_attendance_percentage example_db_marked student_cse1 (Some subject_cs101)
      = attendance_percent 1 2" by (simp only: c1)
  then have a: "get_attendance_percentage example_db_marked student_cse1 (Some subject_cs101)
      = PyFloat 50" by (simp add: attendance_percent_def float_50)
  from t2 have "get_attendance_percentage example_db_marked student_cse1 (Some subject_cs102)
      = attendance_percent 0 0" by (simp only: c1)
  then have b: "get_attendance_percentage example_db_marked student_cse1 (Some subject_cs102)
      = PyInt 0" by (simp add: attendance_percent_def)
  from t1 have c: "attendance_percent 1 3 = PyFloat (binary64 (3333 / 100))"
    by (simp add: code_1_3)
  from t1 r have "\<bar>percentage_decimal 1 3 - 100 * (of_int 1 / of_int 3)\<bar> \<le> 1 / 200 + 1 / 2 ^ 45"
    by blast
  then have e: "\<bar>(3333 / 100 :: rat) - 100 * (1 / 3)\<bar> \<le> 1 / 200 + 1 / 2 ^ 45"
    by (simp only: code_1_3 of_int_1 of_int_numeral)
  from a b c e show ?thesis by (intro conjI)
qed

text \<open>
  C7. The breakdown of a student has one entry for each subject of the table whose
  department and year are the student's, each as often as the table holds it, in ascending
  order of subject code; in every entry the two counts are those of the ledger, absent is
  total minus present and is not negative, and with no recorded class the percentage is the
  integer \<^verbatim>\<open>0\<close>.
\<close>

theorem breakdown_per_subject:
  "map entry_subject (subject_attendance rp d st)
     = sort_key subject_code
         (filter (\<lambda>subj. subject_department subj = student_department st
                        \<and> subject_year subj = student_year st) (subjects d))
   \<and> mset (map entry_subject (subject_attendance rp d st))
       = filter_mset (\<lambda>subj. subject_department subj = student_department st
                            \<and> subject_year subj = student_year st) (mset (subjects d))
   \<and> sorted (map (\<lambda>e. subject_code (entry_subject e)) (subject_attendance rp d st))
   \<and> (\<forall>e \<in> set (subject_attendance rp d st).
        total e = count_total d st (entry_subject e)
        \<and> present e = count_present d st (entry_subject e)
        \<and> absent e = total e - present e
        \<and> 0 \<le> absent e
        \<and> (total e = 0 \<longrightarrow> percentage e = PyInt 0))"
proof -
  let ?subs = "sort_key subject_code
         (filter (\<lambda>subj. subject_department subj = student_department st
                        \<and> subject_year subj = student_year st) (subjects d))"
  have m: "map entry_subject (subject_attendance rp d st) = ?subs"
    by (simp add: subject_attendance_def Let_def comp_def)
  have s: "sorted (map (\<lambda>e. subject_code (entry_subject e)) (subject_attendance rp d st))"
  proof -
    have "map (\<lambda>e. subject_code (entry_subject e)) (subject_attendance rp d st)
            = map subject_code (map entry_subject (subject_attendance rp d st))"
      by (simp add: comp_def)
    then show ?thesis unfolding m by simp
  qed
  have le: "count_present d st subj \<le> count_total d st subj" for subj
  proof -
    have "filter (\<lambda>r. student_ref r = student_id st \<and> subject_ref r = subject_id subj
                        \<and> status r = ''P'') (attendances d)
          = filter (\<lambda>r. status r = ''P'')
              (filter (\<lambda>r. student_ref r = student_id st \<and> subject_ref r = subject_id subj)
                 (attendances d))"
      by (simp add: conj_commute conj_left_commute)
    then show ?thesis
      unfolding count_present_def count_total_def by (simp del: filter_filter)
  qed
  have e: "\<forall>e \<in> set (subject_attendance rp d st).
        total e = count_total d st (entry_subject e)
        \<and> present e = count_present d st (entry_subject e)
        \<and> absent e = total e - present e
        \<and> 0 \<le> absent e
        \<and> (total e = 0 \<longrightarrow> percentage e = PyInt 0)"
    using le by (auto simp: subject_attendance_def Let_def)
  from m s e show ?thesis by (simp only: mset_sort mset_filter simp_thms)
qed

text \<open>The statement of C7 on the example data.\<close>

theorem breakdown_per_subject_witness:
  "subject_attendance (\<lambda>p t. (p, t)) example_db_marked student_cse1
     = [\<lparr>entry_subject = subject_cs101, total = 2, present = 1, absent = 1,
          percentage = PyFloat (1, 2)\<rparr>,
        \<lparr>entry_subject = subject_cs102, total = 0, present = 0, absent = 0,
          percentage = PyInt 0\<rparr>]
   \<and> map entry_subject (subject_attendance (\<lambda>p t. (p, t)) example_db_marked student_cse1)
     = sort_key subject_code [subject_cs102, subject_cs101]"
proof -
  have e: "subject_attendance (\<lambda>p t. (p, t)) example_db_marked student_cse1
     = [\<lparr>entry_subject = subject_cs101, total = 2, present = 1, absent = 1,
          percentage = PyFloat (1, 2)\<rparr>,
        \<lparr>entry_subject = subject_cs102, total = 0, present = 0, absent = 0,
          percentage = PyInt 0\<rparr>]"
    by (simp add: subject_attendance_def count_total_def count_present_def
        example_db_marked_def example_defs)
  have f: "filter (\<lambda>subj. subject_department subj = student_department student_cse1
                        \<and> subject_year subj = student_year student_cse1)
             (subjects example_db_marked) = [subject_cs102, subject_cs101]"
    by (simp add: example_db_marked_def example_defs)
  from breakdown_per_subject [of "\<lambda>p t. (p, t)" example_db_marked student_cse1] e
  show ?thesis unfolding f by blast
qed

text \<open>
  C8, as the code has it. Saving through \<^const>\<open>save_model\<close>, which validates first, an
  attendance object whose student and subject differ in department or in year saves
  nothing and reports a \<^verbatim>\<open>ValidationError\<close> that holds the message of \<^const>\<open>clean\<close>.
  The raw insert and \<^const>\<open>update_or_create\<close> do not run the check.
\<close>

theorem validated_save_rejects_mismatch:
  assumes "find (\<lambda>s. student_id s = student_ref obj) (students d) = Some st"
    and "find (\<lambda>s. subject_id s = subject_ref obj) (subjects d) = Some subj"
    and "student_department st \<noteq> subject_department subj \<or> student_year st \<noteq> subject_year subj"
  shows "\<exists>ms. save_model d obj change = (d, [Admin_error (Inr (ValidationError ms))])
              \<and> (\<exists>m. clean st subj = Inl (ValidationError [m]) \<and> m \<in> set ms)"
proof -
  have "\<exists>m. clean st subj = Inl (ValidationError [m])"
    using assms(3) by (cases "student_department st = subject_department subj")
      (simp_all add: clean_def)
  then obtain m where m: "clean st subj = Inl (ValidationError [m])" by blast
  let ?ms = "clean_fields obj @ [m] @ validate_unique d obj change"
  have "full_clean d obj change = Inl (Inr (ValidationError ?ms))"
    using assms(1,2) m by (simp add: full_clean_def Let_def)
  then have "save_model d obj change = (d, [Admin_error (Inr (ValidationError ?ms))])"
    by (simp add: save_model_def)
  with m show ?thesis by auto
qed

text \<open>
  The student \<^verbatim>\<open>21ECE001\<close> is in ECE and the subject \<^verbatim>\<open>CS101\<close> in CSE, and \<^const>\<open>clean\<close>
  rejects the pair; the raw insert of a record that links them succeeds and the record is
  in the ledger, and so does \<^const>\<open>update_or_create\<close>.
\<close>

theorem raw_create_persists_mismatch:
  "find (\<lambda>s. student_id s = student_ref mismatched_record) (students example_db)
     = Some student_ece1
   \<and> find (\<lambda>s. subject_id s = subject_ref mismatched_record) (subjects example_db)
     = Some subject_cs101
   \<and> student_department student_ece1 \<noteq> subject_department subject_cs101
   \<and> clean student_ece1 subject_cs101
     = Inl (ValidationError [''Student and Subject must be from the same department''])
   \<and> create example_db mismatched_record
     = Inr (example_db\<lparr>attendances := [mismatched_record]\<rparr>)
   \<and> update_or_create example_db 13 21 example_date ''P''
     = Inr (example_db\<lparr>attendances := [mismatched_record]\<rparr>)"
  by (simp add: create_def update_or_create_def foreign_keys_hold_def clean_def
      mismatched_record_def key_of_def example_defs)

text \<open>The statement of C8 on the example data.\<close>

theorem validated_save_rejects_mismatch_witness:
  "save_model example_db mismatched_record False
     = (example_db,
        [Admin_error (Inr (ValidationError
           [''Student and Subject must be from the same department'']))])"
proof -
  have a: "find (\<lambda>s. student_id s = student_ref mismatched_record) (students example_db)
             = Some student_ece1"
    by (simp add: mismatched_record_def example_defs)
  have b: "find (\<lambda>s. subject_id s = subject_ref mismatched_record) (subjects example_db)
             = Some subject_cs101"
    by (simp add: mismatched_record_def example_defs)
  have c: "student_department student_ece1 \<noteq> subject_department subject_cs101
           \<or> student_year student_ece1 \<noteq> subject_year subject_cs101"
    by (simp add: example_defs)
  from validated_save_rejects_mismatch [OF a b c, of False]
  obtain ms where
    "save_model example_db mismatched_record False
       = (example_db, [Admin_error (Inr (ValidationError ms))])" by blast
  moreover have "save_model example_db mismatched_record False
     = (example_db,
        [Admin_error (Inr (ValidationError
           [''Student and Subject must be from the same department'']))])"
    by (simp add: save_model_def full_clean_def clean_fields_def clean_def validate_unique_def
        mismatched_record_def key_of_def example_defs)
  ultimately show ?thesis by simp
qed

text \<open>
  C9. When no student of the table matches the subject's department and year, the roster is
  empty, the marking request returns normally with the database unchanged, the warning as
  its only message and a redirect back to the selection page, whatever the storage
  operation is; and the loop over the empty roster returns both counters at \<^verbatim>\<open>0\<close>.
\<close>

theorem empty_roster_is_noop:
  assumes "\<forall>st \<in> set (students d).
             \<not> (student_department st = subject_department subj
                \<and> student_year st = subject_year subj)"
    and "get_object_or_404 (subjects d) pk = Inr subj"
  shows "eligible_students d subj = []
         \<and> mark_attendance upsert d pk dt post
             = Inr (d, [Message WARNING ''No students found for this subject.''],
                    Redirect ''mark_attendance'')
         \<and> mark_loop upsert post subj dt (eligible_students d subj) (d, 0, 0) = Inr (d, 0, 0)"
proof -
  have e: "eligible_students d subj = []"
    using assms(1) by (auto simp: eligible_students_def filter_empty_conv)
  with assms(2) show ?thesis by (simp add: mark_attendance_def)
qed

text \<open>The statement of C9 on the example data.\<close>

theorem empty_roster_is_noop_witness:
  "eligible_students example_db subject_me201 = []
   \<and> mark_attendance update_or_create example_db 23 example_date post_first
       = Inr (example_db, [Message WARNING ''No students found for this subject.''],
              Redirect ''mark_attendance'')
   \<and> mark_loop update_or_create post_first subject_me201 example_date
        (eligible_students example_db subject_me201) (example_db, 0, 0) = Inr (example_db, 0, 0)"
proof -
  have a: "\<forall>st \<in> set (students example_db).
             \<not> (student_department st = subject_department subject_me201
                \<and> student_year st = subject_year subject_me201)"
    by (simp add: example_defs)
  have b: "get_object_or_404 (subjects example_db) 23 = Inr subject_me201"
    by (simp add: get_object_or_404_def example_defs)
  from empty_roster_is_noop [OF a b] show ?thesis .
qed

text \<open>
  C10. Whatever the storage operation is, when the loop over the roster returns, the
  success and error counters add up to the length of the roster. When the request runs
  alone on a ledger that satisfies the uniqueness constraint, for a subject of the subject
  table (the view looks the subject up there), the loop returns with every
  student of the roster counted as a success, and the rows of the ledger that are not for
  this subject, this date and a student of the roster are the same rows in the same order;
  the student and subject tables are untouched.
\<close>

theorem counts_cover_the_roster:
  "(mark_loop upsert post subj dt (eligible_students d subj) (d, 0, 0) = Inr (d', sc, ec)
      \<longrightarrow> sc + ec = length (eligible_students d subj))
   \<and> (unique_together (attendances d) \<and> subj \<in> set (subjects d) \<longrightarrow>
        (\<exists>d''. mark_loop update_or_create post subj dt (eligible_students d subj) (d, 0, 0)
                  = Inr (d'', length (eligible_students d subj), 0)
              \<and> filter (\<lambda>r. \<not> (subject_ref r = subject_id subj \<and> adate r = dt
                                \<and> student_ref r \<in> set (map student_id (eligible_students d subj))))
                  (attendances d'')
                = filter (\<lambda>r. \<not> (subject_ref r = subject_id subj \<and> adate r = dt
                                \<and> student_ref r \<in> set (map student_id (eligible_students d subj))))
                    (attendances d)
              \<and> students d'' = students d \<and> subjects d'' = subjects d))"
proof -
  have a: "sc + ec = length (eligible_students d subj)"
    if "mark_loop upsert post subj dt (eligible_students d subj) (d, 0, 0) = Inr (d', sc, ec)"
    using mark_loop_counts [OF that] by simp
  have b: "\<exists>d''. mark_loop update_or_create post subj dt (eligible_students d subj) (d, 0, 0)
                  = Inr (d'', length (eligible_students d subj), 0)
              \<and> filter (\<lambda>r. \<not> (subject_ref r = subject_id subj \<and> adate r = dt
                                \<and> student_ref r \<in> set (map student_id (eligible_students d subj))))
                  (attendances d'')
                = filter (\<lambda>r. \<not> (subject_ref r = subject_id subj \<and> adate r = dt
                                \<and> student_ref r \<in> set (map student_id (eligible_students d subj))))
                    (attendances d)
              \<and> students d'' = students d \<and> subjects d'' = subjects d"
    if u: "unique_together (attendances d)" and t: "subj \<in> set (subjects d)"
    unfolding mark_loop_alone [OF u roster_foreign_keys [OF t]]
    using mark_rows_outside [of "subject_id subj" dt "map student_id (eligible_students d subj)"
        post "attendances d"]
    by simp
  from a b show ?thesis by blast
qed

text \<open>The statement of C10 on the example data.\<close>

theorem counts_cover_the_roster_witness:
  "mark_loop (losing_race 12) post_first subject_cs101 example_date
     (eligible_students example_db subject_cs101) (example_db, 0, 0)
   = Inr (example_db\<lparr>attendances :=
            [\<lparr>student_ref = 11, subject_ref = 21, adate = example_date, status = ''P''\<rparr>,
             \<lparr>student_ref = 14, subject_ref = 21, adate = example_date, status = ''A''\<rparr>]\<rparr>,
          2, 1)
   \<and> (2::nat) + 1 = length (eligible_students example_db subject_cs101)
   \<and> (\<exists>d''. mark_loop update_or_create post_first subject_cs101 example_date
               (eligible_students example_db subject_cs101) (example_db, 0, 0)
             = Inr (d'', 3, 0))"
proof -
  let ?d' = "example_db\<lparr>attendances :=
            [\<lparr>student_ref = 11, subject_ref = 21, adate = example_date, status = ''P''\<rparr>,
             \<lparr>student_ref = 14, subject_ref = 21, adate = example_date, status = ''A''\<rparr>]\<rparr>"
  have l: "length (eligible_students example_db subject_cs101) = 3" by (simp add: roster_cs101)
  have t: "subject_cs101 \<in> set (subjects example_db)" by (simp add: example_db_def)
  from counts_cover_the_roster [of "losing_race 12" post_first subject_cs101 example_date
      example_db ?d' 2 1] race_roster unique_example t
  show ?thesis unfolding l by blast
qed

end
